theory Spec2Isabelle
  imports Complex_Main "HOL-Library.AList"
begin

section \<open>Python values, exceptions, strings\<close>

text \<open>
  The module is \<^verbatim>\<open>opentelemetry/instrumentation/asgi/__init__.py\<close>. Python \<^verbatim>\<open>bytes\<close> and
  \<^verbatim>\<open>str\<close> are both lists of bytes here, a \<^verbatim>\<open>str\<close> being its UTF-8 encoding, so that
  \<^verbatim>\<open>bytes.decode("utf8")\<close> is the identity on well-formed UTF-8 and raises otherwise, and
  \<^verbatim>\<open>str.encode()\<close> is the identity. Every \<^verbatim>\<open>raise\<close> of the source is a value \<open>Inl e\<close>.
\<close>

type_synonym bytes = string

datatype exn = UnicodeDecodeError | ValueError | TypeError | KeyError string | Failure string

datatype pyval = PNone | PBool bool | PInt int | PStr string

text \<open>A dictionary of attributes, in insertion order; \<open>dict_update d e\<close> is
  \<^verbatim>\<open>d.update(e)\<close>.\<close>

type_synonym attrs = "(string \<times> pyval) list"

definition dict_update :: "attrs \<Rightarrow> attrs \<Rightarrow> attrs" where
  "dict_update d e = fold (\<lambda>(k, v). AList.update k v) e d"

text \<open>Well-formed UTF-8 (the Unicode standard's table of byte sequences): for a lead byte,
  the number of continuation bytes and the range allowed for the first of them.\<close>

definition utf8_need :: "nat \<Rightarrow> (nat \<times> nat \<times> nat) option" where
  "utf8_need b =
     (if 194 \<le> b \<and> b \<le> 223 then Some (1, 128, 191)
      else if b = 224 then Some (2, 160, 191)
      else if 225 \<le> b \<and> b \<le> 236 then Some (2, 128, 191)
      else if b = 237 then Some (2, 128, 159)
      else if 238 \<le> b \<and> b \<le> 239 then Some (2, 128, 191)
      else if b = 240 then Some (3, 144, 191)
      else if 241 \<le> b \<and> b \<le> 243 then Some (3, 128, 191)
      else if b = 244 then Some (3, 128, 143)
      else None)"

fun utf8_valid :: "bytes \<Rightarrow> bool" where
  "utf8_valid [] = True"
| "utf8_valid (c # cs) =
     (let b = (of_char c :: nat) in
      if b < 128 then utf8_valid cs
      else (case utf8_need b of
              None \<Rightarrow> False
            | Some (n, lo, hi) \<Rightarrow>
                n \<le> length cs
                \<and> lo \<le> (of_char (hd cs) :: nat) \<and> (of_char (hd cs) :: nat) \<le> hi
                \<and> list_all (\<lambda>x. 128 \<le> (of_char x :: nat) \<and> (of_char x :: nat) \<le> 191)
                      (tl (take n cs))
                \<and> utf8_valid (drop n cs)))"

text \<open>\<^verbatim>\<open>b.decode("utf8")\<close> and \<^verbatim>\<open>b.decode()\<close> (strict).\<close>

definition decode :: "bytes \<Rightarrow> exn + string" where
  "decode b = (if utf8_valid b then Inr b else Inl UnicodeDecodeError)"

text \<open>\<^verbatim>\<open>str.lower()\<close>, on the ASCII letters (header names are ASCII tokens).\<close>

definition lower :: "string \<Rightarrow> string" where
  "lower s = map (\<lambda>c. if 65 \<le> (of_char c :: nat) \<and> (of_char c :: nat) \<le> 90
                        then ''abcdefghijklmnopqrstuvwxyz'' ! ((of_char c :: nat) - 65) else c) s"

definition is_space :: "char \<Rightarrow> bool" where
  "is_space c = ((9 \<le> (of_char c :: nat) \<and> (of_char c :: nat) \<le> 13)
                 \<or> (28 \<le> (of_char c :: nat) \<and> (of_char c :: nat) \<le> 32))"

text \<open>\<^verbatim>\<open>str.strip()\<close>, on the ASCII white space.\<close>

definition strip :: "string \<Rightarrow> string" where
  "strip s = rev (dropWhile is_space (rev (dropWhile is_space s)))"

text \<open>\<^verbatim>\<open>sep.join(xs)\<close>.\<close>

fun str_join :: "string \<Rightarrow> string list \<Rightarrow> string" where
  "str_join sep [] = []"
| "str_join sep [x] = x"
| "str_join sep (x # y # ys) = x @ sep @ str_join sep (y # ys)"

text \<open>\<^verbatim>\<open>str(n)\<close> for an integer: decimal digits, a minus sign when negative.\<close>

definition digit_char :: "nat \<Rightarrow> char" where
  "digit_char d = ''0123456789'' ! d"

fun str_nat :: "nat \<Rightarrow> string" where
  "str_nat n = (if n < 10 then [digit_char n] else str_nat (n div 10) @ [digit_char (n mod 10)])"

declare str_nat.simps [simp del]

definition str_int :: "int \<Rightarrow> string" where
  "str_int i = (if i < 0 then CHR ''-'' # str_nat (nat (- i)) else str_nat (nat i))"

text \<open>\<^verbatim>\<open>int(s)\<close> for a string, base 10: white space stripped, an optional sign, then digits,
  single underscores allowed between digits (the ASCII part of the grammar). None is
  Python's ValueError.\<close>

definition is_digit :: "char \<Rightarrow> bool" where
  "is_digit c = (48 \<le> (of_char c :: nat) \<and> (of_char c :: nat) \<le> 57)"

definition digit_val :: "char \<Rightarrow> nat" where
  "digit_val c = (of_char c :: nat) - 48"

fun int_digits :: "nat \<Rightarrow> string \<Rightarrow> nat option" where
  "int_digits acc [] = Some acc"
| "int_digits acc [c] = (if is_digit c then Some (acc * 10 + digit_val c) else None)"
| "int_digits acc (c # d # ds) =
     (if is_digit c then int_digits (acc * 10 + digit_val c) (d # ds)
      else if c = CHR ''_'' \<and> is_digit d then int_digits (acc * 10 + digit_val d) ds
      else None)"

definition int_literal :: "string \<Rightarrow> nat option" where
  "int_literal s =
     (case s of [] \<Rightarrow> None | c # cs \<Rightarrow> if is_digit c then int_digits (digit_val c) cs else None)"

definition int_of_str :: "string \<Rightarrow> int option" where
  "int_of_str s =
     (case strip s of
        [] \<Rightarrow> None
      | c # cs \<Rightarrow>
          if c = CHR ''-'' then map_option (\<lambda>n. - int n) (int_literal cs)
          else if c = CHR ''+'' then map_option int (int_literal cs)
          else map_option int (int_literal (c # cs)))"

text \<open>\<^verbatim>\<open>int(v)\<close>: a string that does not parse raises ValueError, None raises TypeError.\<close>

fun py_int :: "pyval \<Rightarrow> exn + int" where
  "py_int (PInt i) = Inr i"
| "py_int (PBool b) = Inr (if b then 1 else 0)"
| "py_int (PStr s) = (case int_of_str s of None \<Rightarrow> Inl ValueError | Some i \<Rightarrow> Inr i)"
| "py_int PNone = Inl TypeError"

text \<open>\<^verbatim>\<open>round(x)\<close> on a number: to the nearest integer, a tie to the even one. The timer's
  floating-point readings are taken as rationals.\<close>

definition py_round :: "rat \<Rightarrow> int" where
  "py_round x =
     (let f = \<lfloor>x\<rfloor>; d = x - of_int f in
      if d < 1 / 2 then f else if 1 / 2 < d then f + 1 else if even f then f else f + 1)"

section \<open>Collaborators outside the module\<close>

datatype status_code = UNSET | OK | ERROR

text \<open>
  Functions the module calls and whose code is elsewhere (the standard library, the
  tracing API, \<^verbatim>\<open>opentelemetry.util.http\<close>, \<^verbatim>\<open>opentelemetry.instrumentation.utils\<close>),
  taken as parameters: \<open>unquote_escapes\<close> is what \<^verbatim>\<open>urllib.parse.unquote\<close> returns for a string
  that has a percent sign, \<open>repr\<close> is Python's \<^verbatim>\<open>repr\<close>, \<open>describe_exn e\<close> is the text
  \<^verbatim>\<open>f"{type(exc).__name__}: {exc}"\<close>, and \<open>sanitize_header_values fields headers regexes f\<close>
  is \<^verbatim>\<open>SanitizeValue(fields).sanitize_header_values(headers, regexes, f)\<close>.
\<close>

record lib =
  unquote_escapes :: "string \<Rightarrow> string"
  remove_url_credentials :: "string \<Rightarrow> string"
  http_status_to_status_code :: "int \<Rightarrow> status_code"
  repr :: "pyval \<Rightarrow> string"
  describe_exn :: "exn \<Rightarrow> string"
  sanitize_header_values ::
    "string list \<Rightarrow> (string \<times> string) list \<Rightarrow> string list \<Rightarrow> (string \<Rightarrow> string) \<Rightarrow> attrs"
  normalise_request_header_name :: "string \<Rightarrow> string"
  normalise_response_header_name :: "string \<Rightarrow> string"
  parse_active_request_count_attrs :: "attrs \<Rightarrow> attrs"
  parse_duration_attrs :: "attrs \<Rightarrow> attrs"

text \<open>\<^verbatim>\<open>urllib.parse.unquote(s)\<close>: a string without a percent sign is returned as it is.\<close>

definition unquote :: "lib \<Rightarrow> string \<Rightarrow> string" where
  "unquote l s = (if CHR ''%'' \<in> set s then unquote_escapes l s else s)"

abbreviation "HTTP_SCHEME \<equiv> ''http.scheme''"
abbreviation "HTTP_HOST \<equiv> ''http.host''"
abbreviation "NET_HOST_PORT \<equiv> ''net.host.port''"
abbreviation "HTTP_FLAVOR \<equiv> ''http.flavor''"
abbreviation "HTTP_TARGET \<equiv> ''http.target''"
abbreviation "HTTP_URL \<equiv> ''http.url''"
abbreviation "HTTP_METHOD \<equiv> ''http.method''"
abbreviation "HTTP_SERVER_NAME \<equiv> ''http.server_name''"
abbreviation "HTTP_USER_AGENT \<equiv> ''http.user_agent''"
abbreviation "NET_PEER_IP \<equiv> ''net.peer.ip''"
abbreviation "NET_PEER_PORT \<equiv> ''net.peer.port''"
abbreviation "HTTP_STATUS_CODE \<equiv> ''http.status_code''"

section \<open>Scope and messages\<close>

datatype str_or_bytes = Str string | Bytes bytes

text \<open>The ASGI scope: a key that is absent (or None) is None. \<open>server\<close> is the pair
  (host, port), the port None for a unix socket; \<open>route_path_format\<close> is
  \<^verbatim>\<open>getattr(scope.get("route"), "path_format", None)\<close>.\<close>

record scope =
  scope_type :: string
  scheme :: "string option"
  server :: "(string \<times> int option) option"
  root_path :: "string option"
  path :: "string option"
  query_string :: "str_or_bytes option"
  http_version :: "string option"
  http_method :: "string option"
  scope_headers :: "(bytes \<times> bytes) list option"
  client :: "(string \<times> int) option"
  route_path_format :: "string option"

text \<open>An ASGI event passed to \<^verbatim>\<open>send\<close> or returned by \<^verbatim>\<open>receive\<close>.\<close>

record message =
  msg_type :: string
  msg_status :: "pyval option"
  trailers :: "bool option"
  more_body :: "bool option"
  more_trailers :: "bool option"
  msg_headers :: "(bytes \<times> bytes) list option"

section \<open>ASGIGetter and ASGISetter\<close>

fun get_decoded :: "string \<Rightarrow> (bytes \<times> bytes) list \<Rightarrow> exn + string list" where
  "get_decoded key [] = Inr []"
| "get_decoded key ((k, v) # hs) =
     (case decode k of
        Inl e \<Rightarrow> Inl e
      | Inr k' \<Rightarrow>
          if lower k' = key then
            (case decode v of
               Inl e \<Rightarrow> Inl e
             | Inr v' \<Rightarrow> (case get_decoded key hs of Inl e \<Rightarrow> Inl e | Inr r \<Rightarrow> Inr (v' # r)))
          else get_decoded key hs)"

text \<open>\<^verbatim>\<open>asgi_getter.get(carrier, key)\<close>, on the carrier's \<^verbatim>\<open>headers\<close>.\<close>

definition asgi_getter_get :: "(bytes \<times> bytes) list option \<Rightarrow> string \<Rightarrow> exn + string list option" where
  "asgi_getter_get headers key =
     (case headers of
        None \<Rightarrow> Inr None
      | Some [] \<Rightarrow> Inr None
      | Some hs \<Rightarrow>
          (case get_decoded (lower key) hs of
             Inl e \<Rightarrow> Inl e
           | Inr decoded \<Rightarrow> if decoded = [] then Inr None else Inr (Some decoded)))"

text \<open>\<^verbatim>\<open>asgi_setter.set(carrier, key, value)\<close>, on a message.\<close>

definition asgi_setter_set :: "message \<Rightarrow> string \<Rightarrow> string \<Rightarrow> message" where
  "asgi_setter_set m key v =
     m\<lparr>msg_headers :=
         Some ((case msg_headers m of None \<Rightarrow> [] | Some hs \<Rightarrow> hs) @ [(lower key, v)])\<rparr>"

section \<open>Request attributes\<close>

definition str_port :: "int option \<Rightarrow> string" where
  "str_port p = (case p of None \<Rightarrow> ''None'' | Some n \<Rightarrow> str_int n)"

text \<open>\<^verbatim>\<open>scope.get("server") or ["0.0.0.0", 80]\<close>, \<^verbatim>\<open>scope.get("scheme", "http")\<close> and
  \<^verbatim>\<open>scope.get("root_path", "") + scope.get("path", "")\<close>.\<close>

definition server_or_default :: "scope \<Rightarrow> string \<times> int option" where
  "server_or_default sc = (case server sc of None \<Rightarrow> (''0.0.0.0'', Some 80) | Some s \<Rightarrow> s)"

definition scheme_or_default :: "scope \<Rightarrow> string" where
  "scheme_or_default sc = (case scheme sc of None \<Rightarrow> ''http'' | Some s \<Rightarrow> s)"

definition full_path :: "scope \<Rightarrow> string" where
  "full_path sc = (case root_path sc of None \<Rightarrow> '''' | Some r \<Rightarrow> r)
                  @ (case path sc of None \<Rightarrow> '''' | Some p \<Rightarrow> p)"

definition get_host_port_url_tuple :: "scope \<Rightarrow> string \<times> int option \<times> string" where
  "get_host_port_url_tuple sc =
     (let srv = server_or_default sc;
          port = snd srv;
          server_host = fst srv @ (if str_port port \<noteq> ''80'' then '':'' @ str_port port else '''');
          http_url = scheme_or_default sc @ ''://'' @ server_host @ full_path sc
      in (server_host, port, http_url))"

text \<open>Lines 300 to 304 of \<^verbatim>\<open>collect_request_attributes\<close>: the query string appended to the URL.\<close>

definition qs_text :: "str_or_bytes \<Rightarrow> string" where
  "qs_text q = (case q of Str s \<Rightarrow> s | Bytes b \<Rightarrow> b)"

definition with_query_string :: "lib \<Rightarrow> str_or_bytes option \<Rightarrow> string \<Rightarrow> exn + string" where
  "with_query_string l qs http_url =
     (case qs of
        None \<Rightarrow> Inr http_url
      | Some q \<Rightarrow>
          if qs_text q \<noteq> [] \<and> http_url \<noteq> [] then
            (case (case q of Str s \<Rightarrow> Inr s | Bytes b \<Rightarrow> decode b) of
               Inl e \<Rightarrow> Inl e
             | Inr s \<Rightarrow> Inr (http_url @ ''?'' @ unquote l s))
          else Inr http_url)"

definition opt_str :: "string option \<Rightarrow> pyval" where
  "opt_str x = (case x of None \<Rightarrow> PNone | Some s \<Rightarrow> PStr s)"

definition opt_int :: "int option \<Rightarrow> pyval" where
  "opt_int x = (case x of None \<Rightarrow> PNone | Some i \<Rightarrow> PInt i)"

definition collect_request_attributes :: "lib \<Rightarrow> scope \<Rightarrow> exn + attrs" where
  "collect_request_attributes l sc =
     (case get_host_port_url_tuple sc of (server_host, port, url0) \<Rightarrow>
      case with_query_string l (query_string sc) url0 of
        Inl e \<Rightarrow> Inl e
      | Inr http_url \<Rightarrow>
      let result = [(HTTP_SCHEME, opt_str (scheme sc)),
                    (HTTP_HOST, PStr server_host),
                    (NET_HOST_PORT, opt_int port),
                    (HTTP_FLAVOR, opt_str (http_version sc)),
                    (HTTP_TARGET, opt_str (path sc)),
                    (HTTP_URL, PStr (remove_url_credentials l http_url))]
                   @ (case http_method sc of
                        None \<Rightarrow> []
                      | Some m \<Rightarrow> if m \<noteq> [] then [(HTTP_METHOD, PStr m)] else [])
      in
      case asgi_getter_get (scope_headers sc) ''host'' of
        Inl e \<Rightarrow> Inl e
      | Inr http_host_value_list \<Rightarrow>
      let result = result
                   @ (case http_host_value_list of
                        None \<Rightarrow> []
                      | Some vs \<Rightarrow> [(HTTP_SERVER_NAME, PStr (str_join '','' vs))])
      in
      case asgi_getter_get (scope_headers sc) ''user-agent'' of
        Inl e \<Rightarrow> Inl e
      | Inr http_user_agent \<Rightarrow>
      let result = result
                   @ (case http_user_agent of
                        None \<Rightarrow> []
                      | Some vs \<Rightarrow> [(HTTP_USER_AGENT, PStr (hd vs))])
                   @ (case client sc of
                        None \<Rightarrow> []
                      | Some (ip, p) \<Rightarrow> [(NET_PEER_IP, PStr ip), (NET_PEER_PORT, PInt p)])
      in Inr (filter (\<lambda>(k, v). v \<noteq> PNone) result))"

section \<open>Custom header attributes\<close>

text \<open>The loop of \<^verbatim>\<open>collect_custom_headers_attributes\<close> (lines 350 to 359): the dictionary
  \<^verbatim>\<open>headers\<close> is an association list in insertion order.\<close>

fun decode_headers :: "(bytes \<times> bytes) list \<Rightarrow> (string \<times> string) list \<Rightarrow> exn + (string \<times> string) list" where
  "decode_headers [] headers = Inr headers"
| "decode_headers ((k, v) # raw) headers =
     (case decode k of
        Inl e \<Rightarrow> Inl e
      | Inr k' \<Rightarrow>
          (case decode v of
             Inl e \<Rightarrow> Inl e
           | Inr val \<Rightarrow>
               let key = lower k' in
               decode_headers raw
                 (case map_of headers key of
                    Some old \<Rightarrow> AList.update key (old @ '','' @ val) headers
                  | None \<Rightarrow> AList.update key val headers)))"

definition collect_custom_headers_attributes ::
  "lib \<Rightarrow> (bytes \<times> bytes) list option \<Rightarrow> string list \<Rightarrow> string list \<Rightarrow> (string \<Rightarrow> string) \<Rightarrow> exn + attrs" where
  "collect_custom_headers_attributes l raw_headers sanitize header_regexes normalize_names =
     (case (case raw_headers of
              None \<Rightarrow> Inr []
            | Some [] \<Rightarrow> Inr []
            | Some raw \<Rightarrow> decode_headers raw []) of
        Inl e \<Rightarrow> Inl e
      | Inr headers \<Rightarrow> Inr (sanitize_header_values l sanitize headers header_regexes normalize_names))"

text \<open>A scope whose query string and header names and values are well-formed UTF-8.\<close>

definition scope_decodes :: "scope \<Rightarrow> bool" where
  "scope_decodes sc =
     ((case query_string sc of Some (Bytes b) \<Rightarrow> utf8_valid b | _ \<Rightarrow> True)
      \<and> (case scope_headers sc of
           None \<Rightarrow> True
         | Some hs \<Rightarrow> list_all (\<lambda>(k, v). utf8_valid k \<and> utf8_valid v) hs))"

text \<open>The scope of the spec's example of URL construction, whatever its type.\<close>

definition example_scope :: "string \<Rightarrow> scope" where
  "example_scope ty =
     \<lparr>scope_type = ty, scheme = Some ''http'', server = Some (''example.com'', Some 80),
      root_path = None, path = Some ''/a'', query_string = Some (Bytes ''x=1''),
      http_version = None, http_method = None, scope_headers = None, client = None,
      route_path_format = None\<rparr>"

section \<open>Spans\<close>

datatype span_kind = SERVER | INTERNAL

datatype starter = Start_span | Start_as_current_span

text \<open>A span of the tracing API, as the module uses it: \<open>recording\<close> is
  \<^verbatim>\<open>is_recording()\<close>, \<open>status\<close> the last status given to \<^verbatim>\<open>set_status\<close>, \<open>end_calls\<close>
  the number of calls of \<^verbatim>\<open>end()\<close>, \<open>started_by\<close> the tracer method that created it.\<close>

record span =
  span_name :: string
  kind :: span_kind
  started_by :: starter
  recording :: bool
  attributes :: attrs
  status :: "(status_code \<times> string option) option"
  end_calls :: nat

definition set_attribute :: "string \<Rightarrow> pyval \<Rightarrow> span \<Rightarrow> span" where
  "set_attribute k v sp = (if recording sp then sp\<lparr>attributes := AList.update k v (attributes sp)\<rparr> else sp)"

definition set_attributes :: "attrs \<Rightarrow> span \<Rightarrow> span" where
  "set_attributes a sp = (if recording sp then sp\<lparr>attributes := dict_update (attributes sp) a\<rparr> else sp)"

definition set_status :: "status_code \<times> string option \<Rightarrow> span \<Rightarrow> span" where
  "set_status s sp = (if recording sp then sp\<lparr>status := Some s\<rparr> else sp)"

definition span_end :: "span \<Rightarrow> span" where
  "span_end sp = sp\<lparr>recording := False, end_calls := end_calls sp + 1\<rparr>"

definition set_status_code :: "lib \<Rightarrow> span \<Rightarrow> pyval \<Rightarrow> exn + span" where
  "set_status_code l sp status_code =
     (if \<not> recording sp then Inr sp
      else (case py_int status_code of
              Inl ValueError \<Rightarrow>
                Inr (set_status (ERROR, Some (''Non-integer HTTP status: '' @ repr l status_code)) sp)
            | Inl e \<Rightarrow> Inl e
            | Inr code \<Rightarrow>
                Inr (set_status (http_status_to_status_code l code, None)
                       (set_attribute HTTP_STATUS_CODE (PInt code) sp))))"

definition get_default_span_details :: "scope \<Rightarrow> string \<times> attrs" where
  "get_default_span_details sc =
     (let p = strip (case path sc of None \<Rightarrow> '''' | Some x \<Rightarrow> x);
          m = strip (case http_method sc of None \<Rightarrow> '''' | Some x \<Rightarrow> x) in
      if m \<noteq> [] \<and> p \<noteq> [] then (m @ '' '' @ p, [])
      else if p \<noteq> [] then (p, [])
      else (m, []))"

definition collect_target_attribute :: "scope \<Rightarrow> string option" where
  "collect_target_attribute sc =
     (case route_path_format sc of
        None \<Rightarrow> None
      | Some path_format \<Rightarrow>
          if path_format \<noteq> [] then Some ((case root_path sc of None \<Rightarrow> '''' | Some r \<Rightarrow> r) @ path_format)
          else None)"

section \<open>The state the middleware acts on\<close>

text \<open>
  The tracer's spans (a store indexed by span identifier), the context tokens attached and
  not yet detached, the calls made on the four metric instruments in call order, the
  attribute \<^verbatim>\<open>self.content_length_header\<close> of the middleware object, and the calls made on
  the timer and on the server's own \<^verbatim>\<open>receive\<close> and \<^verbatim>\<open>send\<close>.
\<close>

record state =
  spans :: "nat \<Rightarrow> span"
  next_span :: nat
  attached :: "nat list"
  next_token :: nat
  duration_histogram :: "(int \<times> attrs) list"
  server_response_size_histogram :: "(int \<times> attrs) list"
  server_request_size_histogram :: "(int \<times> attrs) list"
  active_requests_counter :: "(int \<times> attrs) list"
  content_length_header :: "int option"
  timer_calls :: nat
  receive_calls :: nat
  sent :: "message list"

text \<open>
  What the surroundings decide: the reading of the n-th call of \<^verbatim>\<open>default_timer()\<close>,
  whether the span with a given identifier is recording when the tracer creates it, whether
  a valid span is current when the middleware is entered, what the server's \<^verbatim>\<open>receive\<close>
  and \<^verbatim>\<open>send\<close> do at their n-th call, and the header fields the global response
  propagator (if one is set) injects for a server span.
\<close>

record env =
  timer :: "nat \<Rightarrow> rat"
  sampler :: "nat \<Rightarrow> bool"
  current_span_valid :: bool
  real_receive :: "nat \<Rightarrow> exn + message"
  real_send :: "nat \<Rightarrow> message \<Rightarrow> exn option"
  response_propagator :: "(nat \<Rightarrow> (string \<times> string) list) option"

text \<open>
  The wrapped application: what it does with \<^verbatim>\<open>receive\<close> and \<^verbatim>\<open>send\<close>, each continuation
  taking what the call returned or raised, until it returns or raises.
\<close>

datatype handler =
    Return
  | Raise exn
  | Receive "(exn + message) \<Rightarrow> handler"
  | Send message "exn option \<Rightarrow> handler"

primrec run_app ::
  "('s \<Rightarrow> (exn + message) \<times> 's) \<Rightarrow> (message \<Rightarrow> 's \<Rightarrow> exn option \<times> 's) \<Rightarrow> handler \<Rightarrow> 's
     \<Rightarrow> (exn + unit) \<times> 's" where
  "run_app rcv sendf Return s = (Inr (), s)"
| "run_app rcv sendf (Raise e) s = (Inl e, s)"
| "run_app rcv sendf (Receive k) s = (case rcv s of (r, s') \<Rightarrow> run_app rcv sendf (k r) s')"
| "run_app rcv sendf (Send m k) s = (case sendf m s of (r, s') \<Rightarrow> run_app rcv sendf (k r) s')"

text \<open>The middleware object. A hook is given by what it raises, if anything.\<close>

record middleware =
  app :: "scope \<Rightarrow> handler"
  excluded_urls :: "(string \<Rightarrow> bool) option"
  default_span_details :: "scope \<Rightarrow> string \<times> attrs"
  server_request_hook :: "(scope \<Rightarrow> exn option) option"
  client_request_hook :: "(scope \<Rightarrow> exn option) option"
  client_response_hook :: "(message \<Rightarrow> exn option) option"
  http_capture_headers_server_request :: "string list option"
  http_capture_headers_server_response :: "string list option"
  http_capture_headers_sanitize_fields :: "string list"

text \<open>The variables \<^verbatim>\<open>_get_otel_send\<close> closes over, one set for each request.\<close>

record locals =
  expecting_trailers :: bool
  duration_attrs :: attrs

section \<open>Tracer and context\<close>

definition upd_span :: "nat \<Rightarrow> (span \<Rightarrow> span) \<Rightarrow> state \<Rightarrow> state" where
  "upd_span i f st = st\<lparr>spans := (spans st)(i := f (spans st i))\<rparr>"

definition new_span :: "env \<Rightarrow> string \<Rightarrow> span_kind \<Rightarrow> starter \<Rightarrow> attrs \<Rightarrow> state \<Rightarrow> nat \<times> state" where
  "new_span ev name k by a st =
     (let i = next_span st in
      (i, st\<lparr>spans := (spans st)(i :=
               \<lparr>span_name = name, kind = k, started_by = by, recording = sampler ev i,
                attributes = (if sampler ev i then a else []), status = None,
                end_calls = 0\<rparr>),
             next_span := i + 1\<rparr>))"

definition attach :: "state \<Rightarrow> nat \<times> state" where
  "attach st =
     (next_token st, st\<lparr>attached := next_token st # attached st, next_token := next_token st + 1\<rparr>)"

definition detach :: "nat \<Rightarrow> state \<Rightarrow> state" where
  "detach tok st = st\<lparr>attached := remove1 tok (attached st)\<rparr>"

text \<open>
  Modelled from the spec: \<^verbatim>\<open>_start_internal_or_server_span\<close> of
  \<^verbatim>\<open>opentelemetry.instrumentation.utils\<close> is not among the sources. The spec: the span kind
  is SERVER unless an existing active span already covers this context, in which case the
  kind is INTERNAL; the context token is acquired when the server span becomes current.
\<close>

definition start_internal_or_server_span ::
  "env \<Rightarrow> string \<Rightarrow> attrs \<Rightarrow> state \<Rightarrow> nat \<times> nat option \<times> state" where
  "start_internal_or_server_span ev name a st =
     (if current_span_valid ev then
        (case new_span ev name INTERNAL Start_span a st of (i, st1) \<Rightarrow> (i, None, st1))
      else
        (case attach st of (tok, st1) \<Rightarrow>
         case new_span ev name SERVER Start_span a st1 of (i, st2) \<Rightarrow> (i, Some tok, st2)))"

text \<open>Leaving \<^verbatim>\<open>trace.use_span(span, end_on_exit)\<close>: the context is detached, an exception
  sets the error status of a recording span, and the span is ended if asked.\<close>

definition use_span_exit :: "lib \<Rightarrow> nat \<Rightarrow> nat \<Rightarrow> bool \<Rightarrow> exn option \<Rightarrow> state \<Rightarrow> state" where
  "use_span_exit l i tok end_on_exit raised st =
     (let st1 = detach tok st;
          st2 = (case raised of
                   None \<Rightarrow> st1
                 | Some e \<Rightarrow> upd_span i (set_status (ERROR, Some (describe_exn l e))) st1)
      in if end_on_exit then upd_span i span_end st2 else st2)"

text \<open>Entering \<^verbatim>\<open>tracer.start_as_current_span(name)\<close>: the span and its context token.\<close>

definition start_as_current_span :: "env \<Rightarrow> string \<Rightarrow> state \<Rightarrow> (nat \<times> nat) \<times> state" where
  "start_as_current_span ev name st =
     (case new_span ev name INTERNAL Start_as_current_span [] st of (i, st1) \<Rightarrow>
      case attach st1 of (tok, st2) \<Rightarrow> ((i, tok), st2))"

definition set_status_code_at :: "lib \<Rightarrow> nat \<Rightarrow> pyval \<Rightarrow> state \<Rightarrow> exn option \<times> state" where
  "set_status_code_at l i status_code st =
     (case set_status_code l (spans st i) status_code of
        Inl e \<Rightarrow> (Some e, st)
      | Inr sp \<Rightarrow> (None, st\<lparr>spans := (spans st)(i := sp)\<rparr>))"

text \<open>One statement after another: the second runs if the first did not raise.\<close>

definition and_then :: "exn option \<times> 's \<Rightarrow> ('s \<Rightarrow> exn option \<times> 's) \<Rightarrow> exn option \<times> 's" where
  "and_then r f = (case r of (Some e, s) \<Rightarrow> (Some e, s) | (None, s) \<Rightarrow> f s)"

section \<open>The wrapped receive\<close>

definition otel_receive ::
  "middleware \<Rightarrow> lib \<Rightarrow> env \<Rightarrow> string \<Rightarrow> scope \<Rightarrow> locals \<times> state \<Rightarrow> (exn + message) \<times> (locals \<times> state)" where
  "otel_receive mw l ev server_span_name sc ls =
     (case ls of (loc, st) \<Rightarrow>
      case start_as_current_span ev
             (str_join '' '' [server_span_name, scope_type sc, ''receive'']) st of
        ((receive_span, tok), st1) \<Rightarrow>
      case (case client_request_hook mw of None \<Rightarrow> None | Some hook \<Rightarrow> hook sc) of
        Some e \<Rightarrow> (Inl e, (loc, use_span_exit l receive_span tok True (Some e) st1))
      | None \<Rightarrow>
      let st2 = st1\<lparr>receive_calls := receive_calls st1 + 1\<rparr> in
      case real_receive ev (receive_calls st1) of
        Inl e \<Rightarrow> (Inl e, (loc, use_span_exit l receive_span tok True (Some e) st2))
      | Inr m \<Rightarrow>
      let st3 = (if recording (spans st2 receive_span) then
                   upd_span receive_span (set_attribute ''asgi.event.type'' (PStr (msg_type m)))
                     (if msg_type m = ''websocket.receive''
                      then snd (set_status_code_at l receive_span (PInt 200) st2) else st2)
                 else st2)
      in (Inr m, (loc, use_span_exit l receive_span tok True None st3)))"

section \<open>The wrapped send\<close>

text \<open>Lines 699 to 707: an \<^verbatim>\<open>http.response.start\<close> message.\<close>

definition on_response_start ::
  "lib \<Rightarrow> nat \<Rightarrow> nat \<Rightarrow> message \<Rightarrow> locals \<times> state \<Rightarrow> exn option \<times> (locals \<times> state)" where
  "on_response_start l server_span send_span m ls =
     (case ls of (loc, st) \<Rightarrow>
      case msg_status m of
        None \<Rightarrow> (Some (KeyError ''status''), (loc, st))
      | Some status_code \<Rightarrow>
          let loc1 = loc\<lparr>duration_attrs := AList.update HTTP_STATUS_CODE status_code (duration_attrs loc)\<rparr> in
          (case set_status_code_at l server_span status_code st of
             (Some e, st1) \<Rightarrow> (Some e, (loc1, st1))
           | (None, st1) \<Rightarrow>
               (case set_status_code_at l send_span status_code st1 of
                  (Some e, st2) \<Rightarrow> (Some e, (loc1, st2))
                | (None, st2) \<Rightarrow>
                    (None, (loc1\<lparr>expecting_trailers :=
                                    (case trailers m of None \<Rightarrow> False | Some b \<Rightarrow> b)\<rparr>, st2)))))"

text \<open>Lines 708 to 710: a \<^verbatim>\<open>websocket.send\<close> message.\<close>

definition on_websocket_send :: "lib \<Rightarrow> nat \<Rightarrow> nat \<Rightarrow> state \<Rightarrow> exn option \<times> state" where
  "on_websocket_send l server_span send_span st =
     and_then (set_status_code_at l server_span (PInt 200) st)
       (set_status_code_at l send_span (PInt 200))"

text \<open>Lines 712 to 730: the custom response headers, set on the server span.\<close>

definition response_header_attributes ::
  "middleware \<Rightarrow> lib \<Rightarrow> nat \<Rightarrow> message \<Rightarrow> state \<Rightarrow> exn option \<times> state" where
  "response_header_attributes mw l server_span m st =
     (if recording (spans st server_span) \<and> kind (spans st server_span) = SERVER
         \<and> msg_headers m \<noteq> None then
        (case (case http_capture_headers_server_response mw of
                 None \<Rightarrow> Inr []
               | Some [] \<Rightarrow> Inr []
               | Some regexes \<Rightarrow>
                   collect_custom_headers_attributes l (msg_headers m)
                     (http_capture_headers_sanitize_fields mw) regexes
                     (normalise_response_header_name l)) of
           Inl e \<Rightarrow> (Some e, st)
         | Inr custom_response_attributes \<Rightarrow>
             (None, if custom_response_attributes \<noteq> []
                    then upd_span server_span (set_attributes custom_response_attributes) st
                    else st))
      else (None, st))"

text \<open>Lines 698 to 730: the block under \<^verbatim>\<open>if send_span.is_recording()\<close>.\<close>

definition send_inspect ::
  "middleware \<Rightarrow> lib \<Rightarrow> nat \<Rightarrow> nat \<Rightarrow> message \<Rightarrow> locals \<times> state \<Rightarrow> exn option \<times> (locals \<times> state)" where
  "send_inspect mw l server_span send_span m ls =
     (case ls of (loc, st) \<Rightarrow>
      if recording (spans st send_span) then
        and_then
          (if msg_type m = ''http.response.start''
           then on_response_start l server_span send_span m (loc, st)
           else if msg_type m = ''websocket.send'' then
             (case on_websocket_send l server_span send_span st of (r, st1) \<Rightarrow> (r, (loc, st1)))
           else (None, (loc, st)))
          (\<lambda>(loc1, st1).
             case response_header_attributes mw l server_span m
                    (upd_span send_span (set_attribute ''asgi.event.type'' (PStr (msg_type m))) st1) of
               (r, st2) \<Rightarrow> (r, (loc1, st2)))
      else (None, (loc, st)))"

text \<open>Lines 732 to 740: the response propagator sets its fields with \<^verbatim>\<open>asgi_setter\<close>.\<close>

definition inject :: "env \<Rightarrow> nat \<Rightarrow> message \<Rightarrow> message" where
  "inject ev server_span m =
     (case response_propagator ev of
        None \<Rightarrow> m
      | Some propagated \<Rightarrow> fold (\<lambda>(k, v) m'. asgi_setter_set m' k v) (propagated server_span) m)"

text \<open>Lines 742 to 747: the content length of the message, kept on the middleware object.\<close>

definition cache_content_length :: "message \<Rightarrow> state \<Rightarrow> exn option \<times> state" where
  "cache_content_length m st =
     (case asgi_getter_get (msg_headers m) ''content-length'' of
        Inl e \<Rightarrow> (Some e, st)
      | Inr None \<Rightarrow> (None, st)
      | Inr (Some content_length) \<Rightarrow>
          (case py_int (PStr (hd content_length)) of
             Inr n \<Rightarrow> (None, st\<lparr>content_length_header := Some n\<rparr>)
           | Inl ValueError \<Rightarrow> (None, st)
           | Inl e \<Rightarrow> (Some e, st)))"

text \<open>Line 749: the server's own \<^verbatim>\<open>send\<close>.\<close>

definition await_send :: "env \<Rightarrow> message \<Rightarrow> state \<Rightarrow> exn option \<times> state" where
  "await_send ev m st = (real_send ev (length (sent st)) m, st\<lparr>sent := sent st @ [m]\<rparr>)"

text \<open>Lines 751 to 759: the condition under which the send wrapper ends the server span.\<close>

definition response_complete :: "bool \<Rightarrow> message \<Rightarrow> bool" where
  "response_complete expecting m =
     ((\<not> expecting \<and> msg_type m = ''http.response.body''
         \<and> \<not> (case more_body m of None \<Rightarrow> False | Some b \<Rightarrow> b))
      \<or> (expecting \<and> msg_type m = ''http.response.trailers''
         \<and> \<not> (case more_trailers m of None \<Rightarrow> False | Some b \<Rightarrow> b)))"

text \<open>The body of the \<^verbatim>\<open>with\<close> statement of \<^verbatim>\<open>otel_send\<close>, lines 696 to 749.\<close>

definition send_body ::
  "middleware \<Rightarrow> lib \<Rightarrow> env \<Rightarrow> nat \<Rightarrow> nat \<Rightarrow> message \<Rightarrow> locals \<times> state \<Rightarrow> exn option \<times> (locals \<times> state)" where
  "send_body mw l ev server_span send_span m ls =
     and_then
       ((case client_response_hook mw of None \<Rightarrow> None | Some hook \<Rightarrow> hook m), ls)
       (\<lambda>ls1. and_then (send_inspect mw l server_span send_span m ls1)
          (\<lambda>(loc, st).
             case and_then (cache_content_length (inject ev server_span m) st)
                    (await_send ev (inject ev server_span m)) of
               (r, st') \<Rightarrow> (r, (loc, st'))))"

definition otel_send ::
  "middleware \<Rightarrow> lib \<Rightarrow> env \<Rightarrow> nat \<Rightarrow> string \<Rightarrow> scope \<Rightarrow> message \<Rightarrow> locals \<times> state
     \<Rightarrow> exn option \<times> (locals \<times> state)" where
  "otel_send mw l ev server_span server_span_name sc m ls =
     (case ls of (loc, st) \<Rightarrow>
      case start_as_current_span ev
             (str_join '' '' [server_span_name, scope_type sc, ''send'']) st of
        ((send_span, tok), st1) \<Rightarrow>
      case send_body mw l ev server_span send_span m (loc, st1) of
        (Some e, (loc2, st2)) \<Rightarrow> (Some e, (loc2, use_span_exit l send_span tok True (Some e) st2))
      | (None, (loc2, st2)) \<Rightarrow>
          let st3 = use_span_exit l send_span tok True None st2 in
          (None, (loc2, if response_complete (expecting_trailers loc2) m
                        then upd_span server_span span_end st3 else st3)))"

section \<open>The middleware\<close>

text \<open>The server's own \<^verbatim>\<open>receive\<close> and \<^verbatim>\<open>send\<close>, as the application sees them when the
  middleware passes them on unwrapped.\<close>

definition plain_receive :: "env \<Rightarrow> state \<Rightarrow> (exn + message) \<times> state" where
  "plain_receive ev st =
     (real_receive ev (receive_calls st), st\<lparr>receive_calls := receive_calls st + 1\<rparr>)"

definition plain_send :: "env \<Rightarrow> message \<Rightarrow> state \<Rightarrow> exn option \<times> state" where
  "plain_send ev m st = await_send ev m st"

text \<open>Lines 605 to 617: the custom request headers.\<close>

definition request_header_attributes :: "middleware \<Rightarrow> lib \<Rightarrow> scope \<Rightarrow> exn + attrs" where
  "request_header_attributes mw l sc =
     (case http_capture_headers_server_request mw of
        None \<Rightarrow> Inr []
      | Some [] \<Rightarrow> Inr []
      | Some regexes \<Rightarrow>
          collect_custom_headers_attributes l (scope_headers sc)
            (http_capture_headers_sanitize_fields mw) regexes (normalise_request_header_name l))"

text \<open>Lines 601 to 617: the attributes set on the current span.\<close>

definition annotate_span :: "middleware \<Rightarrow> lib \<Rightarrow> scope \<Rightarrow> nat \<Rightarrow> attrs \<Rightarrow> state \<Rightarrow> exn option \<times> state" where
  "annotate_span mw l sc current_span request_attributes st =
     (if recording (spans st current_span) then
        (let st1 = upd_span current_span (set_attributes request_attributes) st in
         if kind (spans st1 current_span) = SERVER then
           (case request_header_attributes mw l sc of
              Inl e \<Rightarrow> (Some e, st1)
            | Inr custom_attributes \<Rightarrow>
                (None, if custom_attributes \<noteq> []
                       then upd_span current_span (set_attributes custom_attributes) st1
                       else st1))
         else (None, st1))
      else (None, st))"

text \<open>What lines 580 to 595 compute for a request that is traced.\<close>

record request =
  req_span :: nat
  req_token :: "nat option"
  req_span_name :: string
  req_attributes :: attrs
  req_active_requests_count_attrs :: attrs
  req_duration_attrs :: attrs

text \<open>\<^verbatim>\<open>default_timer()\<close>.\<close>

definition default_timer :: "env \<Rightarrow> state \<Rightarrow> rat \<times> state" where
  "default_timer ev st = (timer ev (timer_calls st), st\<lparr>timer_calls := timer_calls st + 1\<rparr>)"

text \<open>Lines 580 to 598: the server span is started and, for \<^verbatim>\<open>http\<close>, the active requests
  are counted up. What raises here is outside the \<^verbatim>\<open>try\<close> statement.\<close>

definition request_entry :: "middleware \<Rightarrow> lib \<Rightarrow> env \<Rightarrow> scope \<Rightarrow> state \<Rightarrow> exn + (request \<times> state)" where
  "request_entry mw l ev sc st =
     (case default_span_details mw sc of (name, additional_attributes) \<Rightarrow>
      case collect_request_attributes l sc of
        Inl e \<Rightarrow> Inl e
      | Inr attributes0 \<Rightarrow>
      let request_attributes = dict_update attributes0 additional_attributes in
      case start_internal_or_server_span ev name request_attributes st of
        (server_span, token, st1) \<Rightarrow>
      let rq = \<lparr>req_span = server_span, req_token = token, req_span_name = name,
                req_attributes = request_attributes,
                req_active_requests_count_attrs = parse_active_request_count_attrs l request_attributes,
                req_duration_attrs = parse_duration_attrs l request_attributes\<rparr>
      in Inr (rq, if scope_type sc = ''http''
                  then st1\<lparr>active_requests_counter :=
                             active_requests_counter st1 @ [(1, req_active_requests_count_attrs rq)]\<rparr>
                  else st1))"

text \<open>Lines 600 to 620: \<^verbatim>\<open>trace.use_span\<close> is entered (its context token is returned), the
  span is annotated and the server request hook is called.\<close>

definition before_app :: "middleware \<Rightarrow> lib \<Rightarrow> scope \<Rightarrow> request \<Rightarrow> state \<Rightarrow> exn option \<times> nat \<times> state" where
  "before_app mw l sc rq st =
     (case attach st of (tok, st1) \<Rightarrow>
      case and_then (annotate_span mw l sc (req_span rq) (req_attributes rq) st1)
             (\<lambda>st2. ((case server_request_hook mw of None \<Rightarrow> None | Some hook \<Rightarrow> hook sc), st2)) of
        (r, st3) \<Rightarrow> (r, tok, st3))"

text \<open>Lines 622 to 634: the application is called with the wrapped \<^verbatim>\<open>receive\<close> and
  \<^verbatim>\<open>send\<close>; \<open>initial_locals\<close> is what \<^verbatim>\<open>_get_otel_send\<close> starts from.\<close>

definition initial_locals :: "request \<Rightarrow> locals" where
  "initial_locals rq = \<lparr>expecting_trailers = False, duration_attrs = req_duration_attrs rq\<rparr>"

definition wrapped_app ::
  "middleware \<Rightarrow> lib \<Rightarrow> env \<Rightarrow> scope \<Rightarrow> request \<Rightarrow> locals \<times> state \<Rightarrow> (exn + unit) \<times> (locals \<times> state)" where
  "wrapped_app mw l ev sc rq =
     run_app (otel_receive mw l ev (req_span_name rq) sc)
       (otel_send mw l ev (req_span rq) (req_span_name rq) sc) (app mw sc)"

text \<open>Lines 599 to 634: the \<^verbatim>\<open>try\<close> block, that is the \<^verbatim>\<open>with trace.use_span(span,
  end_on_exit=False)\<close> statement.\<close>

definition try_block ::
  "middleware \<Rightarrow> lib \<Rightarrow> env \<Rightarrow> scope \<Rightarrow> request \<Rightarrow> state \<Rightarrow> (exn + unit) \<times> (locals \<times> state)" where
  "try_block mw l ev sc rq st =
     (case before_app mw l sc rq st of
        (Some e, tok, st3) \<Rightarrow>
          (Inl e, (initial_locals rq, use_span_exit l (req_span rq) tok False (Some e) st3))
      | (None, tok, st3) \<Rightarrow>
          (case wrapped_app mw l ev sc rq (initial_locals rq, st3) of
             (Inl e, (loc, st4)) \<Rightarrow>
               (Inl e, (loc, use_span_exit l (req_span rq) tok False (Some e) st4))
           | (Inr u, (loc, st4)) \<Rightarrow>
               (Inr u, (loc, use_span_exit l (req_span rq) tok False None st4))))"

text \<open>Lines 649 to 658: the request size, from the content length of the scope.\<close>

definition record_request_size :: "scope \<Rightarrow> attrs \<Rightarrow> state \<Rightarrow> exn option \<times> state" where
  "record_request_size sc duration_attributes st =
     (case asgi_getter_get (scope_headers sc) ''content-length'' of
        Inl e \<Rightarrow> (Some e, st)
      | Inr None \<Rightarrow> (None, st)
      | Inr (Some request_size) \<Rightarrow>
          (case py_int (PStr (hd request_size)) of
             Inr request_size_amount \<Rightarrow>
               (None, st\<lparr>server_request_size_histogram :=
                            server_request_size_histogram st @ [(request_size_amount, duration_attributes)]\<rparr>)
           | Inl ValueError \<Rightarrow> (None, st)
           | Inl e \<Rightarrow> (Some e, st)))"

text \<open>The duration recorded at line 640.\<close>

definition elapsed_ms :: "rat \<Rightarrow> rat \<Rightarrow> int" where
  "elapsed_ms start now = max (py_round ((now - start) * 1000)) 0"

text \<open>Lines 636 to 658: the metrics of an \<^verbatim>\<open>http\<close> request.\<close>

definition record_metrics ::
  "env \<Rightarrow> scope \<Rightarrow> rat \<Rightarrow> attrs \<Rightarrow> attrs \<Rightarrow> state \<Rightarrow> exn option \<times> state" where
  "record_metrics ev sc start active_requests_count_attrs duration_attrs0 st =
     (let duration_attributes = (case collect_target_attribute sc of
                                   None \<Rightarrow> duration_attrs0
                                 | Some target \<Rightarrow> AList.update HTTP_TARGET (PStr target) duration_attrs0) in
      case default_timer ev st of (now, st0) \<Rightarrow>
      let st1 = st0\<lparr>duration_histogram :=
                      duration_histogram st0 @ [(elapsed_ms start now, duration_attributes)],
                    active_requests_counter :=
                      active_requests_counter st0 @ [(- 1, active_requests_count_attrs)]\<rparr>;
          st2 = (case content_length_header st1 of
                   None \<Rightarrow> st1
                 | Some n \<Rightarrow>
                     if n \<noteq> 0 then
                       st1\<lparr>server_response_size_histogram :=
                             server_response_size_histogram st1 @ [(n, duration_attributes)]\<rparr>
                     else st1)
      in record_request_size sc duration_attributes st2)"

text \<open>Lines 635 to 662: the \<^verbatim>\<open>finally\<close> block.\<close>

definition finally_block ::
  "env \<Rightarrow> scope \<Rightarrow> rat \<Rightarrow> request \<Rightarrow> locals \<times> state \<Rightarrow> exn option \<times> state" where
  "finally_block ev sc start rq ls =
     (case ls of (loc, st) \<Rightarrow>
      and_then
        (if scope_type sc = ''http''
         then record_metrics ev sc start (req_active_requests_count_attrs rq) (duration_attrs loc) st
         else (None, st))
        (\<lambda>st1.
           let st2 = (case req_token rq of None \<Rightarrow> st1 | Some tok \<Rightarrow> detach tok st1) in
           (None, if recording (spans st2 (req_span rq))
                  then upd_span (req_span rq) span_end st2 else st2)))"

text \<open>Lines 580 to 662: a request that is traced. An exception of the \<^verbatim>\<open>finally\<close> block
  takes the place of what the \<^verbatim>\<open>try\<close> block raised or returned.\<close>

definition traced_call ::
  "middleware \<Rightarrow> lib \<Rightarrow> env \<Rightarrow> scope \<Rightarrow> rat \<Rightarrow> state \<Rightarrow> (exn + unit) \<times> state" where
  "traced_call mw l ev sc start st =
     (case request_entry mw l ev sc st of
        Inl e \<Rightarrow> (Inl e, st)
      | Inr (rq, st2) \<Rightarrow>
          (case try_block mw l ev sc rq st2 of
             (outcome, ls) \<Rightarrow>
               (case finally_block ev sc start rq ls of
                  (Some e, st4) \<Rightarrow> (Inl e, st4)
                | (None, st4) \<Rightarrow> (outcome, st4))))"

text \<open>Whether lines 576 to 578 pass the request on untraced.\<close>

definition url_excluded :: "middleware \<Rightarrow> scope \<Rightarrow> bool" where
  "url_excluded mw sc =
     (case excluded_urls mw of
        None \<Rightarrow> False
      | Some url_disabled \<Rightarrow> url_disabled (snd (snd (get_host_port_url_tuple sc))))"

text \<open>\<^verbatim>\<open>OpenTelemetryMiddleware.__call__\<close>.\<close>

definition call :: "middleware \<Rightarrow> lib \<Rightarrow> env \<Rightarrow> scope \<Rightarrow> state \<Rightarrow> (exn + unit) \<times> state" where
  "call mw l ev sc st =
     (case default_timer ev st of (start, st0) \<Rightarrow>
      if scope_type sc \<noteq> ''http'' \<and> scope_type sc \<noteq> ''websocket'' then
        run_app (plain_receive ev) (plain_send ev) (app mw sc) st0
      else if url_excluded mw sc then
        run_app (plain_receive ev) (plain_send ev) (app mw sc) st0
      else traced_call mw l ev sc start st0)"

text \<open>Collaborators for the examples: each does nothing to what it is given.\<close>

definition stub_lib :: lib where
  "stub_lib =
     \<lparr>unquote_escapes = (\<lambda>s. s), remove_url_credentials = (\<lambda>s. s),
      http_status_to_status_code = (\<lambda>i. if 400 \<le> i then ERROR else UNSET),
      repr = (\<lambda>v. []), describe_exn = (\<lambda>e. []),
      sanitize_header_values = (\<lambda>sanitized headers regexes f. []),
      normalise_request_header_name = (\<lambda>s. s), normalise_response_header_name = (\<lambda>s. s),
      parse_active_request_count_attrs = (\<lambda>a. a), parse_duration_attrs = (\<lambda>a. a)\<rparr>"

text \<open>For the examples: a message with a type and nothing else, a middleware without hooks,
  exclusions or header capture around a given application, surroundings in which every span
  is recording, no span is current, \<^verbatim>\<open>receive\<close> returns an \<^verbatim>\<open>http.request\<close> event,
  \<^verbatim>\<open>send\<close> returns and the timer advances by one second at each call, and a state in which
  nothing has happened yet.\<close>

definition plain_message :: "string \<Rightarrow> message" where
  "plain_message t =
     \<lparr>msg_type = t, msg_status = None, trailers = None, more_body = None, more_trailers = None,
      msg_headers = None\<rparr>"

definition quiet_middleware :: "handler \<Rightarrow> middleware" where
  "quiet_middleware h =
     \<lparr>app = (\<lambda>sc. h), excluded_urls = None, default_span_details = get_default_span_details,
      server_request_hook = None, client_request_hook = None, client_response_hook = None,
      http_capture_headers_server_request = None, http_capture_headers_server_response = None,
      http_capture_headers_sanitize_fields = []\<rparr>"

definition stub_env :: env where
  "stub_env =
     \<lparr>timer = (\<lambda>n. of_nat n), sampler = (\<lambda>i. True), current_span_valid = False,
      real_receive = (\<lambda>n. Inr (plain_message ''http.request'')), real_send = (\<lambda>n m. None),
      response_propagator = None\<rparr>"

definition blank_span :: span where
  "blank_span =
     \<lparr>span_name = [], kind = INTERNAL, started_by = Start_span, recording = False,
      attributes = [], status = None, end_calls = 0\<rparr>"

definition initial_state :: state where
  "initial_state =
     \<lparr>spans = (\<lambda>i. blank_span), next_span = 0, attached = [], next_token = 0,
      duration_histogram = [], server_response_size_histogram = [],
      server_request_size_histogram = [], active_requests_counter = [],
      content_length_header = None, timer_calls = 0, receive_calls = 0, sent = []\<rparr>"

text \<open>For the examples: a state in which span 0 is a recording server span and no other
  span exists, the request of that span, fresh locals, and an application that announces
  trailers, sends a last body chunk and returns.\<close>

definition serving_state :: state where
  "serving_state =
     initial_state\<lparr>spans := (\<lambda>i. blank_span)(0 := blank_span\<lparr>kind := SERVER, recording := True\<rparr>),
                   next_span := 1\<rparr>"

definition serving_request :: request where
  "serving_request =
     \<lparr>req_span = 0, req_token = None, req_span_name = ''GET /a'', req_attributes = [],
      req_active_requests_count_attrs = [], req_duration_attrs = []\<rparr>"

definition fresh_locals :: locals where
  "fresh_locals = \<lparr>expecting_trailers = False, duration_attrs = []\<rparr>"

definition trailers_then_body :: handler where
  "trailers_then_body =
     Send ((plain_message ''http.response.start'')\<lparr>msg_status := Some (PInt 200), trailers := Some True\<rparr>)
       (\<lambda>r. Send (plain_message ''http.response.body'') (\<lambda>r. Return))"

text \<open>For the examples: an application that sends one last body chunk and returns, and one
  that sends a response start with a content length of 100 and a last body chunk.\<close>

definition body_then_return :: handler where
  "body_then_return = Send (plain_message ''http.response.body'') (\<lambda>r. Return)"

definition sends_content_length :: handler where
  "sends_content_length =
     Send ((plain_message ''http.response.start'')
             \<lparr>msg_status := Some (PInt 200), msg_headers := Some [(''content-length'', ''100'')]\<rparr>)
       (\<lambda>r. Send (plain_message ''http.response.body'') (\<lambda>r. Return))"

text \<open>For the examples: an application that sends two last body chunks.\<close>

definition two_last_bodies :: handler where
  "two_last_bodies =
     Send (plain_message ''http.response.body'')
       (\<lambda>r. Send (plain_message ''http.response.body'') (\<lambda>r. Return))"

text \<open>For the examples: a middleware whose exclusion list disables every URL, and
  surroundings in which only the span with identifier 0 is recording.\<close>

definition excluding_middleware :: "handler \<Rightarrow> middleware" where
  "excluding_middleware h = (quiet_middleware h)\<lparr>excluded_urls := Some (\<lambda>url. True)\<rparr>"

definition children_unsampled_env :: env where
  "children_unsampled_env = stub_env\<lparr>sampler := (\<lambda>i. i = 0)\<rparr>"




text \<open>For the proofs: the part of a span that setting attributes and statuses leaves alone,
  and two states that differ at most in the attributes and statuses of spans and in the
  cached content length.\<close>

definition skel :: "span \<Rightarrow> string \<times> span_kind \<times> starter \<times> bool \<times> nat" where
  "skel sp = (span_name sp, kind sp, started_by sp, recording sp, end_calls sp)"

definition same_frame :: "state \<Rightarrow> state \<Rightarrow> bool" where
  "same_frame st st' =
     (next_span st' = next_span st \<and> attached st' = attached st \<and> next_token st' = next_token st
      \<and> duration_histogram st' = duration_histogram st
      \<and> server_response_size_histogram st' = server_response_size_histogram st
      \<and> server_request_size_histogram st' = server_request_size_histogram st
      \<and> active_requests_counter st' = active_requests_counter st
      \<and> timer_calls st' = timer_calls st
      \<and> sent st' = sent st \<and> receive_calls st' = receive_calls st
      \<and> (\<forall>i. skel (spans st' i) = skel (spans st i)))"

text \<open>For the proofs: what holds of the state while the application runs with the wrapped
  \<^verbatim>\<open>receive\<close> and \<^verbatim>\<open>send\<close>, from the state \<open>s0\<close> on, for the server span \<open>sid\<close>.\<close>

definition run_inv :: "nat \<Rightarrow> state \<Rightarrow> state \<Rightarrow> bool" where
  "run_inv sid s0 s =
     (next_span s0 \<le> next_span s \<and> attached s = attached s0
      \<and> duration_histogram s = duration_histogram s0
      \<and> server_response_size_histogram s = server_response_size_histogram s0
      \<and> server_request_size_histogram s = server_request_size_histogram s0
      \<and> active_requests_counter s = active_requests_counter s0
      \<and> timer_calls s = timer_calls s0
      \<and> (\<forall>i. i < next_span s0 \<and> i \<noteq> sid \<longrightarrow> skel (spans s i) = skel (spans s0 i))
      \<and> (\<forall>i. next_span s0 \<le> i \<and> i < next_span s
             \<longrightarrow> started_by (spans s i) = Start_as_current_span)
      \<and> started_by (spans s sid) = started_by (spans s0 sid)
      \<and> kind (spans s sid) = kind (spans s0 sid)
      \<and> recording (spans s sid)
          = (recording (spans s0 sid) \<and> end_calls (spans s sid) = end_calls (spans s0 sid))
      \<and> end_calls (spans s0 sid) \<le> end_calls (spans s sid))"

section \<open>Decimal rendering, decoding and the URL\<close>










lemma get_decoded_ok:
  "list_all (\<lambda>(k, v). utf8_valid k \<and> utf8_valid v) hs \<Longrightarrow> \<exists>r. get_decoded key hs = Inr r"
  by (induction hs) (auto simp: decode_def)

lemma asgi_getter_get_ok:
  "(case h of None \<Rightarrow> True | Some hs \<Rightarrow> list_all (\<lambda>(k, v). utf8_valid k \<and> utf8_valid v) hs)
     \<Longrightarrow> \<exists>r. asgi_getter_get h key = Inr r"
proof (cases h)
  case None
  then show ?thesis by (simp add: asgi_getter_get_def)
next
  case (Some hs)
  assume "case h of None \<Rightarrow> True | Some hs \<Rightarrow> list_all (\<lambda>(k, v). utf8_valid k \<and> utf8_valid v) hs"
  with Some have "list_all (\<lambda>(k, v). utf8_valid k \<and> utf8_valid v) hs" by simp
  from get_decoded_ok [OF this, of "lower key"] obtain r where "get_decoded (lower key) hs = Inr r" ..
  with Some show ?thesis by (cases hs) (auto simp: asgi_getter_get_def)
qed

lemma with_query_string_eq:
  "with_query_string l qs url =
     (case qs of
        None \<Rightarrow> Inr url
      | Some q \<Rightarrow>
          if qs_text q = [] \<or> url = [] then Inr url
          else if (case q of Bytes b \<Rightarrow> \<not> utf8_valid b | Str s \<Rightarrow> False) then Inl UnicodeDecodeError
          else Inr (url @ ''?'' @ unquote l (qs_text q)))"
  by (auto simp: with_query_string_def qs_text_def decode_def split: option.splits str_or_bytes.splits)



lemma with_query_string_ok:
  assumes "scope_decodes sc"
  shows "\<exists>u. with_query_string l (query_string sc) url = Inr u"
proof (cases "query_string sc")
  case None
  then show ?thesis by (simp add: with_query_string_eq)
next
  case (Some q)
  show ?thesis
  proof (cases q)
    case (Str x)
    with Some show ?thesis by (simp add: with_query_string_eq)
  next
    case (Bytes b)
    with Some assms have "utf8_valid b" by (simp add: scope_decodes_def)
    with Some Bytes show ?thesis by (simp add: with_query_string_eq)
  qed
qed

lemma collect_request_attributes_ok:
  assumes "scope_decodes sc"
  shows "\<exists>a. collect_request_attributes l sc = Inr a"
proof -
  from assms have h: "case scope_headers sc of None \<Rightarrow> True
      | Some hs \<Rightarrow> list_all (\<lambda>(k, v). utf8_valid k \<and> utf8_valid v) hs"
    by (simp add: scope_decodes_def)
  obtain r1 where r1: "asgi_getter_get (scope_headers sc) ''host'' = Inr r1"
    using asgi_getter_get_ok [OF h] by blast
  obtain r2 where r2: "asgi_getter_get (scope_headers sc) ''user-agent'' = Inr r2"
    using asgi_getter_get_ok [OF h] by blast
  obtain u where u: "with_query_string l (query_string sc) (snd (snd (get_host_port_url_tuple sc))) = Inr u"
    using with_query_string_ok [OF assms] by blast
  show ?thesis
    by (cases "get_host_port_url_tuple sc") (use r1 r2 u in \<open>simp add: collect_request_attributes_def Let_def\<close>)
qed





section \<open>The header loop\<close>











section \<open>What the wrappers leave alone\<close>

lemma same_frame_refl: "same_frame st st"
  by (simp add: same_frame_def)

lemma same_frame_trans: "same_frame a b \<Longrightarrow> same_frame b c \<Longrightarrow> same_frame a c"
  by (simp add: same_frame_def)

lemma skel_set_attribute: "skel (set_attribute k v sp) = skel sp"
  by (simp add: skel_def set_attribute_def)

lemma skel_set_attributes: "skel (set_attributes a sp) = skel sp"
  by (simp add: skel_def set_attributes_def)

lemma skel_set_status: "skel (set_status s sp) = skel sp"
  by (simp add: skel_def set_status_def)

lemma skel_set_status_code: "set_status_code l sp v = Inr sp' \<Longrightarrow> skel sp' = skel sp"
  by (auto simp: set_status_code_def skel_set_status skel_set_attribute
           split: if_splits sum.splits exn.splits)

lemma same_frame_upd_span: "skel (f (spans st i)) = skel (spans st i) \<Longrightarrow> same_frame st (upd_span i f st)"
  by (simp add: same_frame_def upd_span_def)

lemma same_frame_set_status_code_at:
  "set_status_code_at l i v st = (r, st') \<Longrightarrow> same_frame st st'"
  by (auto simp: set_status_code_at_def same_frame_def dest: skel_set_status_code split: sum.splits)

lemma and_then_cases:
  assumes "and_then r f = (x, s')"
  obtains (raised) e where "r = (Some e, s')" "x = Some e"
        | (went_on) s where "r = (None, s)" "f s = (x, s')"
  using assms by (cases r) (auto simp: and_then_def split: option.splits)

lemma same_frame_on_websocket_send:
  assumes "on_websocket_send l server_span send_span st = (r, st')"
  shows "same_frame st st'"
  using assms unfolding on_websocket_send_def
proof (cases rule: and_then_cases)
  case (raised e)
  from raised(1) show ?thesis by (rule same_frame_set_status_code_at)
next
  case (went_on s)
  then show ?thesis
    by (blast intro: same_frame_trans same_frame_set_status_code_at)
qed

lemma same_frame_response_header_attributes:
  "response_header_attributes mw l server_span m st = (r, st') \<Longrightarrow> same_frame st st'"
  by (auto simp: response_header_attributes_def same_frame_refl
           intro!: same_frame_upd_span skel_set_attributes split: if_splits sum.splits)

lemma same_frame_cache_content_length:
  "cache_content_length m st = (r, st') \<Longrightarrow> same_frame st st'"
  by (auto simp: cache_content_length_def same_frame_def
           split: sum.splits option.splits exn.splits)

lemma same_frame_on_response_start:
  assumes "on_response_start l server_span send_span m (loc, st) = (r, (loc', st'))"
  shows "same_frame st st'"
proof (cases "msg_status m")
  case None
  with assms show ?thesis by (simp add: on_response_start_def same_frame_refl)
next
  case (Some v)
  obtain r1 st1 where s1: "set_status_code_at l server_span v st = (r1, st1)"
    by (cases "set_status_code_at l server_span v st")
  obtain r2 st2 where s2: "set_status_code_at l send_span v st1 = (r2, st2)"
    by (cases "set_status_code_at l send_span v st1")
  have f1: "same_frame st st1" using s1 by (rule same_frame_set_status_code_at)
  have f2: "same_frame st1 st2" using s2 by (rule same_frame_set_status_code_at)
  from assms Some s1 s2 have "st' = st1 \<or> st' = st2"
    by (auto simp: on_response_start_def Let_def split: option.splits)
  with f1 f2 show ?thesis by (blast intro: same_frame_trans)
qed

lemma same_frame_send_inspect:
  assumes "send_inspect mw l server_span send_span m (loc, st) = (r, (loc', st'))"
  shows "same_frame st st'"
proof (cases "recording (spans st send_span)")
  case False
  with assms show ?thesis by (simp add: send_inspect_def same_frame_refl)
next
  case True
  let ?first = "(if msg_type m = ''http.response.start''
                 then on_response_start l server_span send_span m (loc, st)
                 else if msg_type m = ''websocket.send''
                   then (case on_websocket_send l server_span send_span st of
                           (r, st1) \<Rightarrow> (r, (loc, st1)))
                 else (None, (loc, st)))"
  obtain r1 loc1 st1 where first: "?first = (r1, (loc1, st1))"
    by (cases ?first) auto
  have f1: "same_frame st st1"
    using first
    by (auto simp: same_frame_refl split: if_splits prod.splits
             dest: same_frame_on_response_start same_frame_on_websocket_send)
  from assms True first have
    "and_then (r1, (loc1, st1))
       (\<lambda>(loc1, st1).
          case response_header_attributes mw l server_span m
                 (upd_span send_span (set_attribute ''asgi.event.type'' (PStr (msg_type m))) st1) of
            (r, st2) \<Rightarrow> (r, (loc1, st2))) = (r, (loc', st'))"
    by (simp add: send_inspect_def)
  then show ?thesis
  proof (cases rule: and_then_cases)
    case (raised e)
    with f1 show ?thesis by simp
  next
    case (went_on s)
    then obtain rr where
      "response_header_attributes mw l server_span m
         (upd_span send_span (set_attribute ''asgi.event.type'' (PStr (msg_type m))) st1) = (rr, st')"
      by (auto split: prod.splits)
    from same_frame_response_header_attributes [OF this]
    have "same_frame (upd_span send_span (set_attribute ''asgi.event.type'' (PStr (msg_type m))) st1) st'" .
    moreover have "same_frame st1 (upd_span send_span (set_attribute ''asgi.event.type'' (PStr (msg_type m))) st1)"
      by (rule same_frame_upd_span) (rule skel_set_attribute)
    ultimately show ?thesis using f1 by (blast intro: same_frame_trans)
  qed
qed

lemma send_body_effect:
  assumes "send_body mw l ev server_span send_span m (loc, st) = (r, (loc', st'))"
  shows "(same_frame st st' \<and> r \<noteq> None)
         \<or> (\<exists>st2. same_frame st st2
                \<and> st' = st2\<lparr>sent := sent st2 @ [inject ev server_span m]\<rparr>
                \<and> r = real_send ev (length (sent st2)) (inject ev server_span m))"
  using assms unfolding send_body_def
proof (cases rule: and_then_cases)
  case (raised e)
  then show ?thesis by (simp add: same_frame_refl)
next
  case (went_on s)
  then have s: "s = (loc, st)" by simp
  from went_on(2) show ?thesis unfolding s
  proof (cases rule: and_then_cases)
    case (raised e)
    from raised(1) have "same_frame st st'" by (rule same_frame_send_inspect)
    with raised(2) show ?thesis by simp
  next
    case (went_on s2)
    obtain loc2 st2 where s2: "s2 = (loc2, st2)" by (cases s2)
    from went_on(1) s2 have f1: "same_frame st st2" by (auto dest: same_frame_send_inspect)
    obtain rr st3 where t: "and_then (cache_content_length (inject ev server_span m) st2)
                    (await_send ev (inject ev server_span m)) = (rr, st3)"
      by (cases "and_then (cache_content_length (inject ev server_span m) st2)
                    (await_send ev (inject ev server_span m))")
    with went_on(2) s2 have e: "st' = st3" "r = rr" by simp_all
    from t show ?thesis
    proof (cases rule: and_then_cases)
      case (raised e)
      from raised(1) have "same_frame st2 st3" by (rule same_frame_cache_content_length)
      with f1 have "same_frame st st'" unfolding e by (rule same_frame_trans)
      with raised(2) e show ?thesis by simp
    next
      case (went_on s3)
      from went_on(1) have "same_frame st2 s3" by (rule same_frame_cache_content_length)
      with f1 have "same_frame st s3" by (rule same_frame_trans)
      with went_on(2) e show ?thesis by (auto simp: await_send_def)
    qed
  qed
qed

lemma send_body_locals:
  assumes "send_body mw l ev server_span send_span m (loc, st) = (r, (loc', st'))"
    and "\<not> recording (spans st send_span)"
  shows "loc' = loc"
  using assms
  by (auto simp: send_body_def send_inspect_def and_then_def split: option.splits prod.splits)

lemma send_body_frame:
  assumes "send_body mw l ev server_span send_span m (loc, st) = (r, (loc', st'))"
  shows "next_span st' = next_span st \<and> attached st' = attached st
    \<and> next_token st' = next_token st
    \<and> duration_histogram st' = duration_histogram st
    \<and> server_response_size_histogram st' = server_response_size_histogram st
    \<and> server_request_size_histogram st' = server_request_size_histogram st
    \<and> active_requests_counter st' = active_requests_counter st
    \<and> timer_calls st' = timer_calls st
    \<and> receive_calls st' = receive_calls st
    \<and> (\<forall>i. skel (spans st' i) = skel (spans st i))
    \<and> (sent st' = sent st \<and> r \<noteq> None
        \<or> sent st' = sent st @ [inject ev server_span m]
          \<and> r = real_send ev (length (sent st)) (inject ev server_span m))"
  using send_body_effect [OF assms] by (auto simp: same_frame_def)

lemma use_span_exit_frame:
  "next_span (use_span_exit l i tok e r st) = next_span st"
  "attached (use_span_exit l i tok e r st) = remove1 tok (attached st)"
  "duration_histogram (use_span_exit l i tok e r st) = duration_histogram st"
  "server_response_size_histogram (use_span_exit l i tok e r st) = server_response_size_histogram st"
  "server_request_size_histogram (use_span_exit l i tok e r st) = server_request_size_histogram st"
  "active_requests_counter (use_span_exit l i tok e r st) = active_requests_counter st"
  "timer_calls (use_span_exit l i tok e r st) = timer_calls st"
  "receive_calls (use_span_exit l i tok e r st) = receive_calls st"
  "sent (use_span_exit l i tok e r st) = sent st"
  "content_length_header (use_span_exit l i tok e r st) = content_length_header st"
  "next_token (use_span_exit l i tok e r st) = next_token st"
  by (simp_all add: use_span_exit_def detach_def upd_span_def Let_def split: option.splits)

lemma use_span_exit_other: "j \<noteq> i \<Longrightarrow> spans (use_span_exit l i tok e r st) j = spans st j"
  by (simp add: use_span_exit_def detach_def upd_span_def Let_def split: option.splits)

lemma use_span_exit_same:
  "started_by (spans (use_span_exit l i tok e r st) i) = started_by (spans st i)"
  "kind (spans (use_span_exit l i tok e r st) i) = kind (spans st i)"
  "span_name (spans (use_span_exit l i tok e r st) i) = span_name (spans st i)"
  "end_calls (spans (use_span_exit l i tok False r st) i) = end_calls (spans st i)"
  "recording (spans (use_span_exit l i tok False r st) i) = recording (spans st i)"
  by (simp_all add: use_span_exit_def detach_def upd_span_def Let_def span_end_def set_status_def
        split: option.splits)

lemma upd_span_frame:
  "next_span (upd_span i f st) = next_span st"
  "attached (upd_span i f st) = attached st"
  "duration_histogram (upd_span i f st) = duration_histogram st"
  "server_response_size_histogram (upd_span i f st) = server_response_size_histogram st"
  "server_request_size_histogram (upd_span i f st) = server_request_size_histogram st"
  "active_requests_counter (upd_span i f st) = active_requests_counter st"
  "timer_calls (upd_span i f st) = timer_calls st"
  "receive_calls (upd_span i f st) = receive_calls st"
  "sent (upd_span i f st) = sent st"
  "content_length_header (upd_span i f st) = content_length_header st"
  "next_token (upd_span i f st) = next_token st"
  "spans (upd_span i f st) i = f (spans st i)"
  by (simp_all add: upd_span_def)

lemma upd_span_other: "j \<noteq> i \<Longrightarrow> spans (upd_span i f st) j = spans st j"
  by (simp add: upd_span_def)

lemma span_end_fields:
  "started_by (span_end sp) = started_by sp" "kind (span_end sp) = kind sp"
  "span_name (span_end sp) = span_name sp"
  "end_calls (span_end sp) = end_calls sp + 1" "recording (span_end sp) = False"
  by (simp_all add: span_end_def)

lemma skel_eq:
  "skel a = skel b \<longleftrightarrow>
     span_name a = span_name b \<and> kind a = kind b \<and> started_by a = started_by b
     \<and> recording a = recording b \<and> end_calls a = end_calls b"
  by (auto simp: skel_def)

lemma otel_send_effect:
  assumes run: "otel_send mw l ev sid name sc m (loc, st) = (r, (loc', st'))"
    and sid: "sid < next_span st"
  shows "next_span st' = next_span st + 1
    \<and> attached st' = attached st
    \<and> duration_histogram st' = duration_histogram st
    \<and> server_response_size_histogram st' = server_response_size_histogram st
    \<and> server_request_size_histogram st' = server_request_size_histogram st
    \<and> active_requests_counter st' = active_requests_counter st
    \<and> timer_calls st' = timer_calls st
    \<and> receive_calls st' = receive_calls st
    \<and> (\<forall>i. i \<noteq> sid \<and> i \<noteq> next_span st \<longrightarrow> skel (spans st' i) = skel (spans st i))
    \<and> started_by (spans st' (next_span st)) = Start_as_current_span
    \<and> started_by (spans st' sid) = started_by (spans st sid)
    \<and> kind (spans st' sid) = kind (spans st sid)
    \<and> end_calls (spans st' sid)
        = end_calls (spans st sid)
          + (if r = None \<and> response_complete (expecting_trailers loc') m then 1 else 0)
    \<and> recording (spans st' sid)
        = (recording (spans st sid) \<and> \<not> (r = None \<and> response_complete (expecting_trailers loc') m))
    \<and> (sent st' = sent st \<and> r \<noteq> None
        \<or> sent st' = sent st @ [inject ev sid m]
          \<and> r = real_send ev (length (sent st)) (inject ev sid m))
    \<and> (\<not> sampler ev (next_span st) \<longrightarrow> loc' = loc)"
proof -
  let ?n = "next_span st"
  let ?sp = "\<lparr>span_name = str_join '' '' [name, scope_type sc, ''send''], kind = INTERNAL,
              started_by = Start_as_current_span, recording = sampler ev ?n,
              attributes = [], status = None, end_calls = 0\<rparr>"
  define st1 where "st1 = st\<lparr>spans := (spans st)(?n := ?sp), next_span := ?n + 1,
                 attached := next_token st # attached st, next_token := next_token st + 1\<rparr>"
  have start: "start_as_current_span ev (str_join '' '' [name, scope_type sc, ''send'']) st
               = ((?n, next_token st), st1)"
    by (simp add: start_as_current_span_def new_span_def attach_def Let_def st1_def)
  obtain rb loc2 st2 where body: "send_body mw l ev sid ?n m (loc, st1) = (rb, (loc2, st2))"
    by (cases "send_body mw l ev sid ?n m (loc, st1)") auto
  have "\<not> recording (spans st1 ?n) \<Longrightarrow> loc2 = loc"
    using send_body_locals [OF body] by simp
  then have locs: "\<not> sampler ev ?n \<longrightarrow> loc2 = loc"
    by (simp add: st1_def)
  define st3 where "st3 = use_span_exit l ?n (next_token st) True rb st2"
  define fired where "fired = (rb = None \<and> response_complete (expecting_trailers loc2) m)"
  from run start body have r: "r = rb" and loc': "loc' = loc2"
    by (auto simp: otel_send_def Let_def split: option.splits)
  from run start body have st': "st' = (if fired then upd_span sid span_end st3 else st3)"
    by (auto simp: otel_send_def Let_def st3_def fired_def split: option.splits)
  from sid have ne: "sid \<noteq> ?n" by simp
  note fr = send_body_frame [OF body]
  have sk: "skel (spans st2 i) = skel (spans st1 i)" for i
    using fr by blast
  have sid2: "skel (spans st2 sid) = skel (spans st sid)"
    using sk [of sid] ne by (simp add: st1_def)
  have sid3: "spans st3 sid = spans st2 sid"
    unfolding st3_def using ne by (simp add: use_span_exit_other)
  have c1: "next_span st' = ?n + 1"
    using fr by (simp add: st' st3_def use_span_exit_frame upd_span_frame st1_def)
  have c2: "attached st' = attached st"
    using fr by (simp add: st' st3_def use_span_exit_frame upd_span_frame st1_def)
  have c3: "duration_histogram st' = duration_histogram st
    \<and> server_response_size_histogram st' = server_response_size_histogram st
    \<and> server_request_size_histogram st' = server_request_size_histogram st
    \<and> active_requests_counter st' = active_requests_counter st
    \<and> timer_calls st' = timer_calls st
    \<and> receive_calls st' = receive_calls st"
    using fr by (simp add: st' st3_def use_span_exit_frame upd_span_frame st1_def)
  have c4: "skel (spans st' i) = skel (spans st i)" if "i \<noteq> sid \<and> i \<noteq> ?n" for i
  proof -
    from that have "spans st' i = spans st2 i"
      by (simp add: st' st3_def use_span_exit_other upd_span_other)
    moreover from that have "skel (spans st1 i) = skel (spans st i)" by (simp add: st1_def)
    ultimately show ?thesis using sk [of i] by simp
  qed
  have "started_by (spans st2 ?n) = Start_as_current_span"
    using sk [of ?n] by (simp add: skel_eq st1_def)
  then have c5: "started_by (spans st' ?n) = Start_as_current_span"
    using ne by (simp add: st' st3_def use_span_exit_same upd_span_other)
  have c6: "started_by (spans st' sid) = started_by (spans st sid)
          \<and> kind (spans st' sid) = kind (spans st sid)"
    using sid2 by (simp add: st' sid3 upd_span_frame span_end_fields skel_eq)
  have c7: "end_calls (spans st' sid) = end_calls (spans st sid) + (if fired then 1 else 0)"
    using sid2 by (simp add: st' sid3 upd_span_frame span_end_fields skel_eq)
  have c8: "recording (spans st' sid) = (recording (spans st sid) \<and> \<not> fired)"
    using sid2 by (simp add: st' sid3 upd_span_frame span_end_fields skel_eq)
  have c9: "sent st' = sent st \<and> r \<noteq> None
        \<or> sent st' = sent st @ [inject ev sid m]
          \<and> r = real_send ev (length (sent st)) (inject ev sid m)"
    using fr by (simp add: st' st3_def use_span_exit_frame upd_span_frame st1_def r)
  from c1 c2 c3 c4 c5 c6 c7 c8 c9 locs show ?thesis
    unfolding fired_def r loc' by blast
qed

lemma otel_receive_effect:
  assumes run: "otel_receive mw l ev name sc (loc, st) = (r, (loc', st'))"
  shows "next_span st' = next_span st + 1
    \<and> attached st' = attached st
    \<and> duration_histogram st' = duration_histogram st
    \<and> server_response_size_histogram st' = server_response_size_histogram st
    \<and> server_request_size_histogram st' = server_request_size_histogram st
    \<and> active_requests_counter st' = active_requests_counter st
    \<and> timer_calls st' = timer_calls st
    \<and> sent st' = sent st
    \<and> content_length_header st' = content_length_header st
    \<and> (\<forall>i. i \<noteq> next_span st \<longrightarrow> skel (spans st' i) = skel (spans st i))
    \<and> started_by (spans st' (next_span st)) = Start_as_current_span
    \<and> loc' = loc"
proof -
  let ?n = "next_span st"
  let ?nm = "str_join '' '' [name, scope_type sc, ''receive'']"
  let ?sp = "\<lparr>span_name = ?nm, kind = INTERNAL,
              started_by = Start_as_current_span, recording = sampler ev ?n,
              attributes = [], status = None, end_calls = 0\<rparr>"
  define st1 where "st1 = st\<lparr>spans := (spans st)(?n := ?sp), next_span := ?n + 1,
                 attached := next_token st # attached st, next_token := next_token st + 1\<rparr>"
  have start: "start_as_current_span ev ?nm st = ((?n, next_token st), st1)"
    by (simp add: start_as_current_span_def new_span_def attach_def Let_def st1_def)
  have "\<exists>e st2. st' = use_span_exit l ?n (next_token st) True e st2 \<and> loc' = loc
          \<and> next_span st2 = next_span st1 \<and> attached st2 = attached st1
          \<and> duration_histogram st2 = duration_histogram st1
          \<and> server_response_size_histogram st2 = server_response_size_histogram st1
          \<and> server_request_size_histogram st2 = server_request_size_histogram st1
          \<and> active_requests_counter st2 = active_requests_counter st1
          \<and> timer_calls st2 = timer_calls st1 \<and> sent st2 = sent st1
          \<and> content_length_header st2 = content_length_header st1
          \<and> (\<forall>i. skel (spans st2 i) = skel (spans st1 i))"
  proof (cases "case client_request_hook mw of None \<Rightarrow> None | Some hook \<Rightarrow> hook sc")
    case (Some e)
    with run start show ?thesis
      by (auto simp: otel_receive_def)
  next
    case None
    define st2 where "st2 = st1\<lparr>receive_calls := receive_calls st1 + 1\<rparr>"
    show ?thesis
    proof (cases "real_receive ev (receive_calls st1)")
      case (Inl e)
      with None run start have "st' = use_span_exit l ?n (next_token st) True (Some e) st2 \<and> loc' = loc"
        by (auto simp: otel_receive_def Let_def st2_def)
      then show ?thesis
        by (intro exI [of _ "Some e"] exI [of _ st2]) (simp add: st2_def)
    next
      case (Inr msg)
      define st3 where "st3 = (if recording (spans st2 ?n) then
                   upd_span ?n (set_attribute ''asgi.event.type'' (PStr (msg_type msg)))
                     (if msg_type msg = ''websocket.receive''
                      then snd (set_status_code_at l ?n (PInt 200) st2) else st2)
                 else st2)"
      from Inr None run start have e: "st' = use_span_exit l ?n (next_token st) True None st3 \<and> loc' = loc"
        by (auto simp: otel_receive_def Let_def st2_def st3_def)
      have a: "same_frame st2 (snd (set_status_code_at l ?n (PInt 200) st2))"
        by (rule same_frame_set_status_code_at [of l ?n "PInt 200" st2 "fst (set_status_code_at l ?n (PInt 200) st2)"]) simp
      have b: "same_frame x (upd_span ?n (set_attribute ''asgi.event.type'' (PStr (msg_type msg))) x)" for x
        by (rule same_frame_upd_span) (rule skel_set_attribute)
      have c: "content_length_header (snd (set_status_code_at l ?n (PInt 200) st2)) = content_length_header st2"
        by (simp add: set_status_code_at_def split: sum.splits)
      have "same_frame st2 st3"
        unfolding st3_def using a b by (auto intro: same_frame_trans same_frame_refl)
      moreover have "content_length_header st3 = content_length_header st2"
        unfolding st3_def using c by (simp add: upd_span_frame)
      ultimately show ?thesis using e
        by (intro exI [of _ None] exI [of _ st3]) (simp add: same_frame_def st2_def)
    qed
  qed
  then obtain e st2 where e: "st' = use_span_exit l ?n (next_token st) True e st2" "loc' = loc"
    and fr: "next_span st2 = next_span st1 \<and> attached st2 = attached st1
          \<and> duration_histogram st2 = duration_histogram st1
          \<and> server_response_size_histogram st2 = server_response_size_histogram st1
          \<and> server_request_size_histogram st2 = server_request_size_histogram st1
          \<and> active_requests_counter st2 = active_requests_counter st1
          \<and> timer_calls st2 = timer_calls st1 \<and> sent st2 = sent st1
          \<and> content_length_header st2 = content_length_header st1"
    and sk: "\<And>i. skel (spans st2 i) = skel (spans st1 i)"
    by blast
  have c1: "next_span st' = ?n + 1 \<and> attached st' = attached st
    \<and> duration_histogram st' = duration_histogram st
    \<and> server_response_size_histogram st' = server_response_size_histogram st
    \<and> server_request_size_histogram st' = server_request_size_histogram st
    \<and> active_requests_counter st' = active_requests_counter st
    \<and> timer_calls st' = timer_calls st
    \<and> sent st' = sent st
    \<and> content_length_header st' = content_length_header st"
    using fr by (simp add: e use_span_exit_frame st1_def)
  have c2: "skel (spans st' i) = skel (spans st i)" if "i \<noteq> ?n" for i
    using that sk [of i] by (simp add: e use_span_exit_other st1_def)
  have "started_by (spans st2 ?n) = Start_as_current_span"
    using sk [of ?n] by (simp add: skel_eq st1_def)
  then have c3: "started_by (spans st' ?n) = Start_as_current_span"
    by (simp add: e use_span_exit_same)
  from c1 c2 c3 e(2) show ?thesis by blast
qed

lemma run_app_invariant:
  assumes "\<And>s r s'. P s \<Longrightarrow> rcv s = (r, s') \<Longrightarrow> P s'"
    and "\<And>m s r s'. P s \<Longrightarrow> sendf m s = (r, s') \<Longrightarrow> P s'"
    and "P s" and "run_app rcv sendf h s = (out, s')"
  shows "P s'"
  using assms(3,4)
proof (induction h arbitrary: s)
  case Return
  then show ?case by simp
next
  case (Raise e)
  then show ?case by simp
next
  case (Receive k)
  obtain r s1 where r: "rcv s = (r, s1)" by (cases "rcv s")
  with Receive.prems have run: "run_app rcv sendf (k r) s1 = (out, s')" by simp
  from assms(1) [OF Receive.prems(1) r] have p: "P s1" .
  show ?case by (rule Receive.IH [OF rangeI p run])
next
  case (Send m k)
  obtain r s1 where r: "sendf m s = (r, s1)" by (cases "sendf m s")
  with Send.prems have run: "run_app rcv sendf (k r) s1 = (out, s')" by simp
  from assms(2) [OF Send.prems(1) r] have p: "P s1" .
  show ?case by (rule Send.IH [OF rangeI p run])
qed

lemma run_inv_refl: "run_inv sid s0 s0"
  by (auto simp: run_inv_def)

lemma run_inv_send:
  assumes sid: "sid < next_span s0" and inv: "run_inv sid s0 s"
    and run: "otel_send mw l ev sid name sc m (loc, s) = (r, (loc', s'))"
  shows "run_inv sid s0 s'"
proof -
  from sid inv have sid': "sid < next_span s" by (simp add: run_inv_def)
  note e = otel_send_effect [OF run sid']
  have sk: "skel (spans s' i) = skel (spans s i)" if "i \<noteq> sid" "i \<noteq> next_span s" for i
    using e that by blast
  have a: "skel (spans s' i) = skel (spans s0 i)" if "i < next_span s0 \<and> i \<noteq> sid" for i
  proof -
    from that inv have "i \<noteq> next_span s" by (simp add: run_inv_def)
    with that sk [of i] have "skel (spans s' i) = skel (spans s i)" by simp
    with that inv show ?thesis by (simp add: run_inv_def)
  qed
  have b: "started_by (spans s' i) = Start_as_current_span"
    if "next_span s0 \<le> i \<and> i < next_span s'" for i
  proof (cases "i = next_span s")
    case True
    with e show ?thesis by simp
  next
    case False
    with that e have lt: "i < next_span s" by simp
    with that sid have "i \<noteq> sid" by simp
    with False sk [of i] have "started_by (spans s' i) = started_by (spans s i)"
      by (simp add: skel_eq)
    with that lt inv show ?thesis by (simp add: run_inv_def)
  qed
  have c: "recording (spans s' sid)
          = (recording (spans s0 sid) \<and> end_calls (spans s' sid) = end_calls (spans s0 sid))"
    using e inv by (auto simp: run_inv_def)
  from e inv a b c show ?thesis
    by (simp add: run_inv_def)
qed

lemma run_inv_receive:
  assumes sid: "sid < next_span s0" and inv: "run_inv sid s0 s"
    and run: "otel_receive mw l ev name sc (loc, s) = (r, (loc', s'))"
  shows "run_inv sid s0 s'"
proof -
  from sid inv have sid': "sid \<noteq> next_span s" by (simp add: run_inv_def)
  note e = otel_receive_effect [OF run]
  have sk: "skel (spans s' i) = skel (spans s i)" if "i \<noteq> next_span s" for i
    using e that by blast
  have a: "skel (spans s' i) = skel (spans s0 i)" if "i < next_span s0 \<and> i \<noteq> sid" for i
  proof -
    from that inv have "i \<noteq> next_span s" by (simp add: run_inv_def)
    with sk [of i] have "skel (spans s' i) = skel (spans s i)" by simp
    with that inv show ?thesis by (simp add: run_inv_def)
  qed
  have b: "started_by (spans s' i) = Start_as_current_span"
    if "next_span s0 \<le> i \<and> i < next_span s'" for i
  proof (cases "i = next_span s")
    case True
    with e show ?thesis by simp
  next
    case False
    with that e have lt: "i < next_span s" by simp
    from False sk [of i] have "started_by (spans s' i) = started_by (spans s i)"
      by (simp add: skel_eq)
    with that lt inv show ?thesis by (simp add: run_inv_def)
  qed
  from sk [OF sid'] have d: "skel (spans s' sid) = skel (spans s sid)" .
  from e inv a b d show ?thesis
    by (simp add: run_inv_def skel_eq)
qed

lemma wrapped_app_inv:
  assumes sid: "req_span rq < next_span s0"
    and run: "wrapped_app mw l ev sc rq (loc, s0) = (out, (loc', s'))"
  shows "run_inv (req_span rq) s0 s'"
proof -
  let ?P = "\<lambda>ls. run_inv (req_span rq) s0 (snd ls)"
  have "?P (loc', s')"
  proof (rule run_app_invariant [where P = ?P])
    show "?P (loc, s0)" by (simp add: run_inv_refl)
    show "run_app (otel_receive mw l ev (req_span_name rq) sc)
            (otel_send mw l ev (req_span rq) (req_span_name rq) sc) (app mw sc) (loc, s0)
          = (out, (loc', s'))"
      using run by (simp add: wrapped_app_def)
  next
    fix s r s'
    assume "?P s" and "otel_receive mw l ev (req_span_name rq) sc s = (r, s')"
    then show "?P s'"
      using run_inv_receive [OF sid, of "snd s" mw l ev "req_span_name rq" sc "fst s" r "fst s'" "snd s'"]
      by simp
  next
    fix m s r s'
    assume "?P s" and "otel_send mw l ev (req_span rq) (req_span_name rq) sc m s = (r, s')"
    then show "?P s'"
      using run_inv_send [OF sid, of "snd s" mw l ev "req_span_name rq" sc m "fst s" r "fst s'" "snd s'"]
      by simp
  qed
  then show ?thesis by simp
qed


section \<open>The send wrapper and the end of the server span\<close>

lemmas eval_defs =
  call_def traced_call_def default_timer_def url_excluded_def request_entry_def
  try_block_def before_app_def wrapped_app_def initial_locals_def finally_block_def
  record_metrics_def record_request_size_def elapsed_ms_def otel_send_def otel_receive_def
  send_body_def send_inspect_def on_response_start_def on_websocket_send_def
  response_header_attributes_def inject_def cache_content_length_def await_send_def
  response_complete_def annotate_span_def request_header_attributes_def
  start_as_current_span_def start_internal_or_server_span_def use_span_exit_def
  set_status_code_at_def and_then_def new_span_def attach_def detach_def upd_span_def
  set_status_code_def set_status_def set_attribute_def set_attributes_def span_end_def
  collect_request_attributes_def with_query_string_def qs_text_def get_host_port_url_tuple_def
  server_or_default_def scheme_or_default_def full_path_def str_port_def str_int_def
  digit_char_def decode_def asgi_getter_get_def lower_def unquote_def opt_str_def opt_int_def
  get_default_span_details_def strip_def is_space_def collect_target_attribute_def
  int_of_str_def int_literal_def is_digit_def digit_val_def py_round_def utf8_need_def
  plain_send_def plain_receive_def dict_update_def collect_custom_headers_attributes_def
  str_nat.simps Let_def

lemmas stub_defs =
  stub_lib_def stub_env_def quiet_middleware_def plain_message_def blank_span_def
  initial_state_def example_scope_def serving_state_def serving_request_def fresh_locals_def
  trailers_then_body_def body_then_return_def sends_content_length_def two_last_bodies_def
  excluding_middleware_def children_unsampled_env_def









section \<open>The status code of a span\<close>

lemma set_status_code_not_recording: "\<not> recording sp \<Longrightarrow> set_status_code l sp v = Inr sp"
  by (simp add: set_status_code_def)

lemma set_status_code_convertible:
  "recording sp \<Longrightarrow> py_int v = Inr code
     \<Longrightarrow> \<exists>sp'. set_status_code l sp v = Inr sp'
           \<and> map_of (attributes sp') HTTP_STATUS_CODE = Some (PInt code)
           \<and> status sp' = Some (http_status_to_status_code l code, None)"
  by (simp add: set_status_code_def set_status_def set_attribute_def update_conv')

lemma set_status_code_unparsable:
  "recording sp \<Longrightarrow> py_int v = Inl ValueError
     \<Longrightarrow> set_status_code l sp v
         = Inr (sp\<lparr>status := Some (ERROR, Some (''Non-integer HTTP status: '' @ repr l v))\<rparr>)"
  by (simp add: set_status_code_def set_status_def)

text \<open>
  Claim C6, at the status None: \<open>int(None)\<close> raises \<open>TypeError\<close>, which the handler for
  \<open>ValueError\<close> does not catch, so \<open>set_status_code\<close> on a recording span raises instead of
  setting the error status.
\<close>

theorem set_status_code_none_raises:
  "set_status_code l (sp\<lparr>recording := True\<rparr>) PNone = Inl TypeError"
  by (simp add: set_status_code_def)

section \<open>A traced request\<close>

lemma request_entry_effect:
  assumes "request_entry mw l ev sc st = Inr (rq, st2)"
  shows "req_span rq = next_span st \<and> next_span st2 = next_span st + 1
    \<and> started_by (spans st2 (next_span st)) = Start_span
    \<and> recording (spans st2 (next_span st)) = sampler ev (next_span st)
    \<and> end_calls (spans st2 (next_span st)) = 0
    \<and> (\<forall>i. i \<noteq> next_span st \<longrightarrow> spans st2 i = spans st i)
    \<and> attached st2 = (case req_token rq of None \<Rightarrow> attached st | Some tok \<Rightarrow> tok # attached st)
    \<and> duration_histogram st2 = duration_histogram st
    \<and> server_response_size_histogram st2 = server_response_size_histogram st
    \<and> server_request_size_histogram st2 = server_request_size_histogram st
    \<and> active_requests_counter st2
        = active_requests_counter st
          @ (if scope_type sc = ''http'' then [(1, req_active_requests_count_attrs rq)] else [])
    \<and> timer_calls st2 = timer_calls st
    \<and> content_length_header st2 = content_length_header st"
proof -
  obtain nm extra where d: "default_span_details mw sc = (nm, extra)"
    by (cases "default_span_details mw sc")
  from assms d obtain a0 where a0: "collect_request_attributes l sc = Inr a0"
    by (cases "collect_request_attributes l sc") (simp_all add: request_entry_def)
  obtain i tok st1 where s: "start_internal_or_server_span ev nm (dict_update a0 extra) st = (i, tok, st1)"
    by (cases "start_internal_or_server_span ev nm (dict_update a0 extra) st") auto
  from s have s1: "i = next_span st \<and> next_span st1 = next_span st + 1
    \<and> started_by (spans st1 (next_span st)) = Start_span
    \<and> recording (spans st1 (next_span st)) = sampler ev (next_span st)
    \<and> end_calls (spans st1 (next_span st)) = 0
    \<and> (\<forall>i. i \<noteq> next_span st \<longrightarrow> spans st1 i = spans st i)
    \<and> attached st1 = (case tok of None \<Rightarrow> attached st | Some t \<Rightarrow> t # attached st)
    \<and> duration_histogram st1 = duration_histogram st
    \<and> server_response_size_histogram st1 = server_response_size_histogram st
    \<and> server_request_size_histogram st1 = server_request_size_histogram st
    \<and> active_requests_counter st1 = active_requests_counter st
    \<and> timer_calls st1 = timer_calls st
    \<and> content_length_header st1 = content_length_header st"
    by (auto simp: start_internal_or_server_span_def new_span_def attach_def Let_def
          split: if_splits)
  from assms d a0 s have rq: "req_span rq = i" "req_token rq = tok"
    by (auto simp: request_entry_def Let_def)
  from assms d a0 s have st2: "st2 = (if scope_type sc = ''http''
                  then st1\<lparr>active_requests_counter :=
                             active_requests_counter st1 @ [(1, req_active_requests_count_attrs rq)]\<rparr>
                  else st1)"
    by (auto simp: request_entry_def Let_def)
  from s1 show ?thesis unfolding st2 rq by simp
qed

lemma request_entry_ok:
  assumes "scope_decodes sc"
  shows "\<exists>rq st2. request_entry mw l ev sc st = Inr (rq, st2)"
proof -
  from collect_request_attributes_ok [OF assms] obtain a where "collect_request_attributes l sc = Inr a" ..
  then show ?thesis
    by (auto simp: request_entry_def Let_def split: prod.splits)
qed

lemma same_frame_annotate_span:
  assumes "annotate_span mw l sc i a st = (r, st')"
  shows "same_frame st st'"
proof (cases "recording (spans st i)")
  case False
  with assms show ?thesis by (simp add: annotate_span_def same_frame_refl)
next
  case True
  let ?st1 = "upd_span i (set_attributes a) st"
  have f1: "same_frame st ?st1" by (rule same_frame_upd_span) (rule skel_set_attributes)
  have f2: "same_frame ?st1 (upd_span i (set_attributes c) ?st1)" for c
    by (rule same_frame_upd_span) (rule skel_set_attributes)
  from assms True have "st' = ?st1 \<or> (\<exists>c. st' = upd_span i (set_attributes c) ?st1)"
    by (auto simp: annotate_span_def Let_def split: if_splits sum.splits)
  with f1 f2 show ?thesis by (blast intro: same_frame_trans)
qed

lemma before_app_effect:
  assumes "before_app mw l sc rq st = (r, tok, st3)"
  shows "attached st3 = tok # attached st \<and> next_span st3 = next_span st
    \<and> duration_histogram st3 = duration_histogram st
    \<and> server_response_size_histogram st3 = server_response_size_histogram st
    \<and> server_request_size_histogram st3 = server_request_size_histogram st
    \<and> active_requests_counter st3 = active_requests_counter st
    \<and> timer_calls st3 = timer_calls st
    \<and> (\<forall>i. skel (spans st3 i) = skel (spans st i))"
proof -
  let ?st1 = "st\<lparr>attached := next_token st # attached st, next_token := next_token st + 1\<rparr>"
  have a: "attach st = (next_token st, ?st1)" by (simp add: attach_def)
  obtain r2 st2 where an: "annotate_span mw l sc (req_span rq) (req_attributes rq) ?st1 = (r2, st2)"
    by (cases "annotate_span mw l sc (req_span rq) (req_attributes rq) ?st1")
  from same_frame_annotate_span [OF an] have f: "same_frame ?st1 st2" .
  from assms a an have "tok = next_token st \<and> st3 = st2"
    by (auto simp: before_app_def and_then_def split: option.splits)
  with f show ?thesis by (simp add: same_frame_def)
qed

lemma try_block_effect:
  assumes run: "try_block mw l ev sc rq st = (out, (loc, st4))"
    and sid: "req_span rq < next_span st"
  shows "run_inv (req_span rq) st st4"
proof -
  obtain r tok st3 where b: "before_app mw l sc rq st = (r, tok, st3)"
    by (cases "before_app mw l sc rq st") auto
  note be = before_app_effect [OF b]
  from be sid have sid3: "req_span rq < next_span st3" by simp
  have "\<exists>e s. st4 = use_span_exit l (req_span rq) tok False e s \<and> run_inv (req_span rq) st3 s"
  proof (cases r)
    case (Some e)
    with run b have "st4 = use_span_exit l (req_span rq) tok False (Some e) st3"
      by (simp add: try_block_def)
    then show ?thesis using run_inv_refl by blast
  next
    case None
    obtain o2 loc2 s4 where w: "wrapped_app mw l ev sc rq (initial_locals rq, st3) = (o2, (loc2, s4))"
      by (cases "wrapped_app mw l ev sc rq (initial_locals rq, st3)") auto
    from wrapped_app_inv [OF sid3 w] have inv: "run_inv (req_span rq) st3 s4" .
    from run b None w have "\<exists>e. st4 = use_span_exit l (req_span rq) tok False e s4"
      by (cases o2) (auto simp: try_block_def)
    with inv show ?thesis by blast
  qed
  then obtain e s where st4: "st4 = use_span_exit l (req_span rq) tok False e s"
    and inv: "run_inv (req_span rq) st3 s" by blast
  have sk: "skel (spans st3 i) = skel (spans st i)" for i using be by blast
  have x: "skel (spans st4 i) = skel (spans s i)" for i
  proof (cases "i = req_span rq")
    case True
    then show ?thesis by (simp add: st4 skel_eq use_span_exit_same)
  next
    case False
    then show ?thesis by (simp add: st4 use_span_exit_other)
  qed
  from inv be show ?thesis
    using sk x
    by (simp add: run_inv_def st4 use_span_exit_frame skel_eq)
qed

lemma try_block_content_length:
  assumes "try_block mw l ev sc rq st = (out, (loc, st4))" and "app mw sc = Return \<or> (\<exists>e. app mw sc = Raise e)"
  shows "content_length_header st4 = content_length_header st"
proof -
  obtain r tok st3 where b: "before_app mw l sc rq st = (r, tok, st3)"
    by (cases "before_app mw l sc rq st") auto
  let ?st1 = "st\<lparr>attached := next_token st # attached st, next_token := next_token st + 1\<rparr>"
  obtain r2 st2 where an: "annotate_span mw l sc (req_span rq) (req_attributes rq) ?st1 = (r2, st2)"
    by (cases "annotate_span mw l sc (req_span rq) (req_attributes rq) ?st1")
  then have "content_length_header st2 = content_length_header st"
    by (auto simp: annotate_span_def Let_def upd_span_frame split: if_splits sum.splits)
  moreover from b an have "st3 = st2"
    by (auto simp: before_app_def attach_def and_then_def split: option.splits)
  ultimately have c: "content_length_header st3 = content_length_header st" by simp
  from assms b show ?thesis
    by (cases r) (auto simp: try_block_def wrapped_app_def use_span_exit_frame c)
qed

lemma py_int_str_cases: "(\<exists>n. py_int (PStr s) = Inr n) \<or> py_int (PStr s) = Inl ValueError"
  by (simp split: option.splits)

lemma record_request_size_effect:
  assumes "record_request_size sc a st = (r, st')"
  shows "duration_histogram st' = duration_histogram st
       \<and> server_response_size_histogram st' = server_response_size_histogram st
       \<and> active_requests_counter st' = active_requests_counter st
       \<and> timer_calls st' = timer_calls st
       \<and> next_span st' = next_span st \<and> spans st' = spans st \<and> attached st' = attached st
       \<and> content_length_header st' = content_length_header st
       \<and> (r = None \<longleftrightarrow> (\<exists>x. asgi_getter_get (scope_headers sc) ''content-length'' = Inr x))"
proof (cases "asgi_getter_get (scope_headers sc) ''content-length''")
  case (Inl e)
  with assms show ?thesis by (auto simp: record_request_size_def)
next
  case (Inr x)
  show ?thesis
  proof (cases x)
    case None
    with Inr assms show ?thesis by (auto simp: record_request_size_def)
  next
    case (Some vs)
    from py_int_str_cases [of "hd vs"] show ?thesis
    proof
      assume "\<exists>n. py_int (PStr (hd vs)) = Inr n"
      then obtain n where "py_int (PStr (hd vs)) = Inr n" ..
      with Inr Some assms show ?thesis by (auto simp: record_request_size_def)
    next
      assume "py_int (PStr (hd vs)) = Inl ValueError"
      with Inr Some assms show ?thesis by (auto simp: record_request_size_def)
    qed
  qed
qed

lemma record_metrics_effect:
  assumes "record_metrics ev sc start act d0 st = (r, st')"
  shows "(\<exists>a. duration_histogram st'
               = duration_histogram st @ [(elapsed_ms start (timer ev (timer_calls st)), a)]
             \<and> server_response_size_histogram st'
               = server_response_size_histogram st
                 @ (case content_length_header st of
                      None \<Rightarrow> []
                    | Some n \<Rightarrow> if n \<noteq> 0 then [(n, a)] else []))
       \<and> active_requests_counter st' = active_requests_counter st @ [(- 1, act)]
       \<and> timer_calls st' = timer_calls st + 1
       \<and> next_span st' = next_span st \<and> spans st' = spans st \<and> attached st' = attached st
       \<and> content_length_header st' = content_length_header st
       \<and> (r = None \<longleftrightarrow> (\<exists>x. asgi_getter_get (scope_headers sc) ''content-length'' = Inr x))"
proof -
  let ?a = "(case collect_target_attribute sc of
               None \<Rightarrow> d0 | Some target \<Rightarrow> AList.update HTTP_TARGET (PStr target) d0)"
  let ?st0 = "st\<lparr>timer_calls := timer_calls st + 1\<rparr>"
  let ?st1 = "?st0\<lparr>duration_histogram :=
                      duration_histogram ?st0 @ [(elapsed_ms start (timer ev (timer_calls st)), ?a)],
                    active_requests_counter := active_requests_counter ?st0 @ [(- 1, act)]\<rparr>"
  let ?st2 = "(case content_length_header ?st1 of
                   None \<Rightarrow> ?st1
                 | Some n \<Rightarrow>
                     if n \<noteq> 0 then
                       ?st1\<lparr>server_response_size_histogram :=
                             server_response_size_histogram ?st1 @ [(n, ?a)]\<rparr>
                     else ?st1)"
  have "record_metrics ev sc start act d0 st = record_request_size sc ?a ?st2"
    by (cases "content_length_header st")
       (simp_all add: record_metrics_def default_timer_def Let_def)
  with assms have rr: "record_request_size sc ?a ?st2 = (r, st')" by simp
  note e = record_request_size_effect [OF rr]
  from e have r: "r = None \<longleftrightarrow> (\<exists>x. asgi_getter_get (scope_headers sc) ''content-length'' = Inr x)"
    by blast
  from e have "duration_histogram st' = duration_histogram ?st2
       \<and> server_response_size_histogram st' = server_response_size_histogram ?st2" by blast
  then have "duration_histogram st'
               = duration_histogram st @ [(elapsed_ms start (timer ev (timer_calls st)), ?a)]
             \<and> server_response_size_histogram st'
               = server_response_size_histogram st
                 @ (case content_length_header st of
                      None \<Rightarrow> []
                    | Some n \<Rightarrow> if n \<noteq> 0 then [(n, ?a)] else [])"
    by (simp split: option.splits)
  moreover from e have "active_requests_counter st' = active_requests_counter ?st2
       \<and> timer_calls st' = timer_calls ?st2
       \<and> next_span st' = next_span ?st2 \<and> spans st' = spans ?st2 \<and> attached st' = attached ?st2
       \<and> content_length_header st' = content_length_header ?st2" by blast
  then have "active_requests_counter st' = active_requests_counter st @ [(- 1, act)]
       \<and> timer_calls st' = timer_calls st + 1
       \<and> next_span st' = next_span st \<and> spans st' = spans st \<and> attached st' = attached st
       \<and> content_length_header st' = content_length_header st"
    by (simp split: option.splits)
  ultimately show ?thesis using r by blast
qed

lemma finally_block_effect:
  assumes "finally_block ev sc start rq (loc, st) = (r, st')"
  shows "(if scope_type sc = ''http'' then
            (\<exists>a. duration_histogram st'
                    = duration_histogram st @ [(elapsed_ms start (timer ev (timer_calls st)), a)]
                  \<and> server_response_size_histogram st'
                    = server_response_size_histogram st
                      @ (case content_length_header st of
                           None \<Rightarrow> []
                         | Some n \<Rightarrow> if n \<noteq> 0 then [(n, a)] else []))
            \<and> active_requests_counter st'
                = active_requests_counter st @ [(- 1, req_active_requests_count_attrs rq)]
            \<and> (r = None \<longleftrightarrow> (\<exists>x. asgi_getter_get (scope_headers sc) ''content-length'' = Inr x))
          else duration_histogram st' = duration_histogram st
            \<and> server_response_size_histogram st' = server_response_size_histogram st
            \<and> server_request_size_histogram st' = server_request_size_histogram st
            \<and> active_requests_counter st' = active_requests_counter st
            \<and> r = None)
       \<and> next_span st' = next_span st
       \<and> (\<forall>i. i \<noteq> req_span rq \<longrightarrow> spans st' i = spans st i)
       \<and> started_by (spans st' (req_span rq)) = started_by (spans st (req_span rq))
       \<and> (r = None \<longrightarrow>
            attached st' = (case req_token rq of
                              None \<Rightarrow> attached st | Some tok \<Rightarrow> remove1 tok (attached st))
            \<and> \<not> recording (spans st' (req_span rq))
            \<and> end_calls (spans st' (req_span rq))
                = end_calls (spans st (req_span rq))
                  + (if recording (spans st (req_span rq)) then 1 else 0))
       \<and> (r \<noteq> None \<longrightarrow> attached st' = attached st \<and> spans st' = spans st)"
proof -
  let ?first = "(if scope_type sc = ''http''
         then record_metrics ev sc start (req_active_requests_count_attrs rq) (duration_attrs loc) st
         else (None, st))"
  obtain r1 st1 where first: "?first = (r1, st1)" by (cases ?first)
  have m: "(if scope_type sc = ''http'' then
            (\<exists>a. duration_histogram st1
                    = duration_histogram st @ [(elapsed_ms start (timer ev (timer_calls st)), a)]
                  \<and> server_response_size_histogram st1
                    = server_response_size_histogram st
                      @ (case content_length_header st of
                           None \<Rightarrow> []
                         | Some n \<Rightarrow> if n \<noteq> 0 then [(n, a)] else []))
            \<and> active_requests_counter st1
                = active_requests_counter st @ [(- 1, req_active_requests_count_attrs rq)]
            \<and> (r1 = None \<longleftrightarrow> (\<exists>x. asgi_getter_get (scope_headers sc) ''content-length'' = Inr x))
          else duration_histogram st1 = duration_histogram st
            \<and> server_response_size_histogram st1 = server_response_size_histogram st
            \<and> server_request_size_histogram st1 = server_request_size_histogram st
            \<and> active_requests_counter st1 = active_requests_counter st
            \<and> r1 = None)
       \<and> next_span st1 = next_span st \<and> spans st1 = spans st \<and> attached st1 = attached st"
  proof (cases "scope_type sc = ''http''")
    case True
    with first have "record_metrics ev sc start (req_active_requests_count_attrs rq)
                       (duration_attrs loc) st = (r1, st1)" by simp
    from record_metrics_effect [OF this] True show ?thesis by simp
  next
    case False
    with first show ?thesis by simp
  qed
  define st3 where "st3 = (let st2 = (case req_token rq of None \<Rightarrow> st1 | Some tok \<Rightarrow> detach tok st1) in
               if recording (spans st2 (req_span rq))
               then upd_span (req_span rq) span_end st2 else st2)"
  from assms first have res: "(r1 \<noteq> None \<and> r = r1 \<and> st' = st1) \<or> (r1 = None \<and> r = None \<and> st' = st3)"
    by (auto simp: finally_block_def and_then_def Let_def st3_def split: option.splits)
  have d: "duration_histogram st3 = duration_histogram st1
         \<and> server_response_size_histogram st3 = server_response_size_histogram st1
         \<and> server_request_size_histogram st3 = server_request_size_histogram st1
         \<and> active_requests_counter st3 = active_requests_counter st1
         \<and> next_span st3 = next_span st1
         \<and> attached st3 = (case req_token rq of
                              None \<Rightarrow> attached st1 | Some tok \<Rightarrow> remove1 tok (attached st1))
         \<and> (\<forall>i. i \<noteq> req_span rq \<longrightarrow> spans st3 i = spans st1 i)
         \<and> started_by (spans st3 (req_span rq)) = started_by (spans st1 (req_span rq))
         \<and> \<not> recording (spans st3 (req_span rq))
         \<and> end_calls (spans st3 (req_span rq))
                = end_calls (spans st1 (req_span rq))
                  + (if recording (spans st1 (req_span rq)) then 1 else 0)"
    by (simp add: st3_def Let_def upd_span_def detach_def span_end_def split: option.splits)
  from res show ?thesis
  proof
    assume "r1 \<noteq> None \<and> r = r1 \<and> st' = st1"
    with m show ?thesis by (simp split: if_splits)
  next
    assume a: "r1 = None \<and> r = None \<and> st' = st3"
    then have st': "st' = st3" and r: "r = None" "r1 = None" by simp_all
    from m r(2) have m': "(if scope_type sc = ''http'' then
            (\<exists>a. duration_histogram st1
                    = duration_histogram st @ [(elapsed_ms start (timer ev (timer_calls st)), a)]
                  \<and> server_response_size_histogram st1
                    = server_response_size_histogram st
                      @ (case content_length_header st of
                           None \<Rightarrow> []
                         | Some n \<Rightarrow> if n \<noteq> 0 then [(n, a)] else []))
            \<and> active_requests_counter st1
                = active_requests_counter st @ [(- 1, req_active_requests_count_attrs rq)]
            \<and> (\<exists>x. asgi_getter_get (scope_headers sc) ''content-length'' = Inr x)
          else duration_histogram st1 = duration_histogram st
            \<and> server_response_size_histogram st1 = server_response_size_histogram st
            \<and> server_request_size_histogram st1 = server_request_size_histogram st
            \<and> active_requests_counter st1 = active_requests_counter st)"
      and m2: "next_span st1 = next_span st" "spans st1 = spans st" "attached st1 = attached st"
      by (simp_all split: if_splits)
    from d m2 have d': "attached st3 = (case req_token rq of
                              None \<Rightarrow> attached st | Some tok \<Rightarrow> remove1 tok (attached st))"
      by (simp split: option.splits)
    show ?thesis
    proof (cases "scope_type sc = ''http''")
      case True
      with m' d d' m2 show ?thesis unfolding st' r by simp
    next
      case False
      with m' d d' m2 show ?thesis unfolding st' r by simp
    qed
  qed
qed

lemma scope_content_length_ok:
  assumes "scope_decodes sc"
  shows "\<exists>x. asgi_getter_get (scope_headers sc) ''content-length'' = Inr x"
proof -
  from assms have "case scope_headers sc of None \<Rightarrow> True
      | Some hs \<Rightarrow> list_all (\<lambda>(k, v). utf8_valid k \<and> utf8_valid v) hs"
    by (simp add: scope_decodes_def)
  from asgi_getter_get_ok [OF this] show ?thesis .
qed

lemma call_traced:
  assumes ty: "scope_type sc = ''http'' \<or> scope_type sc = ''websocket''"
    and ex: "\<not> url_excluded mw sc" and dec: "scope_decodes sc"
    and run: "call mw l ev sc st = (res, st')"
  obtains rq st2 loc st3 where
    "request_entry mw l ev sc (snd (default_timer ev st)) = Inr (rq, st2)"
    "try_block mw l ev sc rq st2 = (res, (loc, st3))"
    "finally_block ev sc (timer ev (timer_calls st)) rq (loc, st3) = (None, st')"
proof -
  let ?st0 = "snd (default_timer ev st)"
  from request_entry_ok [OF dec] obtain rq st2 where
    en: "request_entry mw l ev sc ?st0 = Inr (rq, st2)" by blast
  obtain out loc st3 where tr: "try_block mw l ev sc rq st2 = (out, (loc, st3))"
    by (cases "try_block mw l ev sc rq st2") auto
  obtain r st4 where fi: "finally_block ev sc (timer ev (timer_calls st)) rq (loc, st3) = (r, st4)"
    by (cases "finally_block ev sc (timer ev (timer_calls st)) rq (loc, st3)")
  from finally_block_effect [OF fi] scope_content_length_ok [OF dec] have r: "r = None"
    by (simp split: if_splits)
  from run ty ex en tr fi r have "res = out \<and> st' = st4"
    by (auto simp: call_def traced_call_def default_timer_def)
  with en tr fi r that show ?thesis by blast
qed


text \<open>
  Claim C2, as the code has it. For every \<open>http\<close> request whose URL is not excluded and whose
  scope decodes: one server span is created (the span with the next free identifier, made by
  \<open>start_span\<close>; every other span created during the request is a child span made by a
  wrapper, and the spans that existed before keep their recording status and their number of
  \<open>end()\<close> calls). After the \<open>try\<close> block the server span is recording exactly when it
  was recording at its creation and the send wrapper has not called \<open>end()\<close> on it. The
  \<open>finally\<close> block calls \<open>end()\<close> on it exactly when it is still recording, so never
  on a span the send wrapper has ended; afterwards the span is not recording. So a span that
  was recording at its creation has got exactly one \<open>end()\<close> call whenever the send wrapper
  has ended it at most once.
\<close>

theorem one_server_span_ended_by_wrapper_or_cleanup:
  assumes "scope_type sc = ''http''" and "\<not> url_excluded mw sc" and "scope_decodes sc"
    and "call mw l ev sc st = (res, st')"
  shows "\<exists>rq st2 loc st3.
           request_entry mw l ev sc (snd (default_timer ev st)) = Inr (rq, st2)
         \<and> try_block mw l ev sc rq st2 = (res, (loc, st3))
         \<and> req_span rq = next_span st
         \<and> next_span st < next_span st'
         \<and> started_by (spans st' (next_span st)) = Start_span
         \<and> (\<forall>i. next_span st < i \<and> i < next_span st'
                \<longrightarrow> started_by (spans st' i) = Start_as_current_span)
         \<and> (\<forall>i. i < next_span st \<longrightarrow> skel (spans st' i) = skel (spans st i))
         \<and> recording (spans st3 (next_span st))
             = (sampler ev (next_span st) \<and> end_calls (spans st3 (next_span st)) = 0)
         \<and> end_calls (spans st' (next_span st))
             = end_calls (spans st3 (next_span st))
               + (if recording (spans st3 (next_span st)) then 1 else 0)
         \<and> \<not> recording (spans st' (next_span st))
         \<and> (sampler ev (next_span st) \<and> end_calls (spans st3 (next_span st)) \<le> 1
              \<longrightarrow> end_calls (spans st' (next_span st)) = 1)"
proof -
  from assms(1) have ty: "scope_type sc = ''http'' \<or> scope_type sc = ''websocket''" by simp
  from call_traced [OF ty assms(2-4)] obtain rq st2 loc st3 where
    en: "request_entry mw l ev sc (snd (default_timer ev st)) = Inr (rq, st2)"
    and tr: "try_block mw l ev sc rq st2 = (res, (loc, st3))"
    and fi: "finally_block ev sc (timer ev (timer_calls st)) rq (loc, st3) = (None, st')"
    by blast
  let ?n = "next_span st"
  note e1 = request_entry_effect [OF en]
  from e1 have sid: "req_span rq = ?n" and n2: "next_span st2 = ?n + 1"
    by (simp_all add: default_timer_def)
  from e1 have s2: "started_by (spans st2 ?n) = Start_span"
    "recording (spans st2 ?n) = sampler ev ?n" "end_calls (spans st2 ?n) = 0"
    by (simp_all add: default_timer_def)
  from e1 have o2: "spans st2 i = spans st i" if "i \<noteq> ?n" for i
    using that by (simp add: default_timer_def)
  from sid n2 have lt: "req_span rq < next_span st2" by simp
  from try_block_effect [OF tr lt] have inv: "run_inv ?n st2 st3" by (simp add: sid)
  note e3 = finally_block_effect [OF fi]
  from e3 have n4: "next_span st' = next_span st3" by simp
  from e3 have o4: "spans st' i = spans st3 i" if "i \<noteq> ?n" for i
    using that by (simp add: sid)
  from inv n2 have n3: "?n + 1 \<le> next_span st3" by (simp add: run_inv_def)
  have c1: "?n < next_span st'" using n3 n4 by simp
  have c2: "started_by (spans st' ?n) = Start_span"
    using e3 inv s2 by (simp add: sid run_inv_def)
  have c3: "started_by (spans st' i) = Start_as_current_span"
    if "?n < i \<and> i < next_span st'" for i
  proof -
    from that n2 n4 have "next_span st2 \<le> i \<and> i < next_span st3" by simp
    with inv have "started_by (spans st3 i) = Start_as_current_span" by (simp add: run_inv_def)
    with that o4 [of i] show ?thesis by simp
  qed
  have c4: "skel (spans st' i) = skel (spans st i)" if "i < ?n" for i
  proof -
    from that n2 have "i < next_span st2 \<and> i \<noteq> ?n" by simp
    with inv have "skel (spans st3 i) = skel (spans st2 i)" by (simp add: run_inv_def)
    with that o4 [of i] o2 [of i] show ?thesis by simp
  qed
  have c5: "recording (spans st3 ?n) = (sampler ev ?n \<and> end_calls (spans st3 ?n) = 0)"
    using inv s2 by (simp add: run_inv_def)
  have c6: "end_calls (spans st' ?n)
             = end_calls (spans st3 ?n) + (if recording (spans st3 ?n) then 1 else 0)"
    and c7: "\<not> recording (spans st' ?n)"
    using e3 by (simp_all add: sid)
  have c8: "sampler ev ?n \<and> end_calls (spans st3 ?n) \<le> 1 \<longrightarrow> end_calls (spans st' ?n) = 1"
    using c5 c6 by auto
  from en tr sid c1 c2 c3 c4 c5 c6 c7 c8 show ?thesis by blast
qed

theorem one_server_span_ended_by_wrapper_or_cleanup_witness:
  "scope_type (example_scope ''http'') = ''http''
   \<and> \<not> url_excluded (quiet_middleware body_then_return) (example_scope ''http'')
   \<and> scope_decodes (example_scope ''http'')
   \<and> next_span initial_state
       < next_span (snd (call (quiet_middleware body_then_return) stub_lib stub_env
                          (example_scope ''http'') initial_state))
   \<and> started_by (spans (snd (call (quiet_middleware body_then_return) stub_lib stub_env
                          (example_scope ''http'') initial_state)) (next_span initial_state))
       = Start_span
   \<and> \<not> recording (spans (snd (call (quiet_middleware body_then_return) stub_lib stub_env
                          (example_scope ''http'') initial_state)) (next_span initial_state))
   \<and> end_calls (spans (snd (call (quiet_middleware body_then_return) stub_lib stub_env
                          (example_scope ''http'') initial_state)) 0) = 1"
proof -
  let ?mw = "quiet_middleware body_then_return"
  let ?x = "call ?mw stub_lib stub_env (example_scope ''http'') initial_state"
  have x: "?x = (fst ?x, snd ?x)" by simp
  have h: "scope_type (example_scope ''http'') = ''http''" by (simp add: example_scope_def)
  have u: "\<not> url_excluded ?mw (example_scope ''http'')"
    by (simp add: url_excluded_def quiet_middleware_def)
  have d: "scope_decodes (example_scope ''http'')"
    by (simp add: scope_decodes_def example_scope_def)
  from one_server_span_ended_by_wrapper_or_cleanup [OF h u d x]
  have a: "next_span initial_state < next_span (snd ?x)
         \<and> started_by (spans (snd ?x) (next_span initial_state)) = Start_span
         \<and> \<not> recording (spans (snd ?x) (next_span initial_state))"
    by blast
  have e: "end_calls (spans (snd ?x) 0) = 1"
    by (simp add: eval_defs stub_defs)
  from h u d a e show ?thesis by blast
qed

theorem excluded_http_request_has_no_server_span:
  "scope_type (example_scope ''http'') = ''http''
   \<and> next_span (snd (call (excluding_middleware Return)
                       stub_lib stub_env (example_scope ''http'') initial_state))
       = next_span initial_state
   \<and> next_span initial_state = 0"
  by (simp add: call_def url_excluded_def default_timer_def stub_defs)

lemma try_block_outcome:
  assumes "try_block mw l ev sc rq st = (out, ls)"
  shows "\<exists>r tok s3. before_app mw l sc rq st = (r, tok, s3)
           \<and> (\<forall>e. r = Some e \<longrightarrow> out = Inl e)
           \<and> (r = None \<longrightarrow> out = fst (wrapped_app mw l ev sc rq (initial_locals rq, s3)))"
proof -
  obtain r tok s3 where b: "before_app mw l sc rq st = (r, tok, s3)"
    by (cases "before_app mw l sc rq st") auto
  obtain o2 loc2 s4 where w: "wrapped_app mw l ev sc rq (initial_locals rq, s3) = (o2, (loc2, s4))"
    by (cases "wrapped_app mw l ev sc rq (initial_locals rq, s3)") auto
  from assms b w have "(\<forall>e. r = Some e \<longrightarrow> out = Inl e) \<and> (r = None \<longrightarrow> out = o2)"
    by (cases r; cases o2) (auto simp: try_block_def)
  with b w show ?thesis by simp
qed

text \<open>
  Claim C3, as the code has it. For every \<open>http\<close> request whose URL is not excluded and whose
  scope decodes: what the call returns or raises is what the \<open>try\<close> block returned or
  raised, that is the exception of the server request hook or of annotating the span if one
  was raised there, and otherwise what the application, run with the wrapped \<open>receive\<close> and
  \<open>send\<close>, returned or raised, unchanged; whatever that was, the duration histogram has
  got exactly one record call, the active-request counter one call adding 1 and one adding
  -1, and every context token attached during the request has been detached.
\<close>

theorem cleanup_runs_and_exception_propagates:
  assumes "scope_type sc = ''http''" and "\<not> url_excluded mw sc" and "scope_decodes sc"
    and "call mw l ev sc st = (res, st')"
  shows "\<exists>rq st2 r tok s3.
           request_entry mw l ev sc (snd (default_timer ev st)) = Inr (rq, st2)
         \<and> before_app mw l sc rq st2 = (r, tok, s3)
         \<and> (\<forall>e. r = Some e \<longrightarrow> res = Inl e)
         \<and> (r = None \<longrightarrow> res = fst (wrapped_app mw l ev sc rq (initial_locals rq, s3)))
         \<and> (\<exists>a. duration_histogram st'
                  = duration_histogram st
                    @ [(elapsed_ms (timer ev (timer_calls st)) (timer ev (timer_calls st + 1)), a)])
         \<and> active_requests_counter st'
             = active_requests_counter st
               @ [(1, req_active_requests_count_attrs rq), (- 1, req_active_requests_count_attrs rq)]
         \<and> attached st' = attached st"
proof -
  from assms(1) have ty: "scope_type sc = ''http'' \<or> scope_type sc = ''websocket''" by simp
  from call_traced [OF ty assms(2-4)] obtain rq st2 loc st3 where
    en: "request_entry mw l ev sc (snd (default_timer ev st)) = Inr (rq, st2)"
    and tr: "try_block mw l ev sc rq st2 = (res, (loc, st3))"
    and fi: "finally_block ev sc (timer ev (timer_calls st)) rq (loc, st3) = (None, st')"
    by blast
  from try_block_outcome [OF tr] obtain r tok s3 where
    b: "before_app mw l sc rq st2 = (r, tok, s3)"
    and o: "(\<forall>e. r = Some e \<longrightarrow> res = Inl e)
          \<and> (r = None \<longrightarrow> res = fst (wrapped_app mw l ev sc rq (initial_locals rq, s3)))"
    by blast
  note e1 = request_entry_effect [OF en]
  from e1 have lt: "req_span rq < next_span st2" by simp
  from try_block_effect [OF tr lt] have inv: "run_inv (req_span rq) st2 st3" .
  note e3 = finally_block_effect [OF fi]
  from e1 inv have t3: "timer_calls st3 = timer_calls st + 1"
    and d3: "duration_histogram st3 = duration_histogram st"
    and a3: "active_requests_counter st3
             = active_requests_counter st @ [(1, req_active_requests_count_attrs rq)]"
    and at3: "attached st3 = (case req_token rq of None \<Rightarrow> attached st | Some tok \<Rightarrow> tok # attached st)"
    using assms(1) by (simp_all add: run_inv_def default_timer_def split: option.splits)
  from e3 assms(1) obtain a where
    "duration_histogram st'
       = duration_histogram st3 @ [(elapsed_ms (timer ev (timer_calls st)) (timer ev (timer_calls st3)), a)]"
    by auto
  then have c1: "\<exists>a. duration_histogram st'
                  = duration_histogram st
                    @ [(elapsed_ms (timer ev (timer_calls st)) (timer ev (timer_calls st + 1)), a)]"
    unfolding t3 d3 by blast
  from e3 assms(1) have c2: "active_requests_counter st'
             = active_requests_counter st
               @ [(1, req_active_requests_count_attrs rq), (- 1, req_active_requests_count_attrs rq)]"
    by (simp add: a3)
  from e3 have c3: "attached st' = attached st"
    by (simp add: at3 split: option.splits)
  from en b o c1 c2 c3 show ?thesis by blast
qed

theorem cleanup_runs_and_exception_propagates_witness:
  "scope_type (example_scope ''http'') = ''http''
   \<and> \<not> url_excluded (quiet_middleware (Raise (Failure ''boom''))) (example_scope ''http'')
   \<and> scope_decodes (example_scope ''http'')
   \<and> fst (call (quiet_middleware (Raise (Failure ''boom''))) stub_lib stub_env
             (example_scope ''http'') initial_state) = Inl (Failure ''boom'')
   \<and> map fst (duration_histogram (snd (call (quiet_middleware (Raise (Failure ''boom''))) stub_lib
             stub_env (example_scope ''http'') initial_state))) = [1000]
   \<and> attached (snd (call (quiet_middleware (Raise (Failure ''boom''))) stub_lib stub_env
             (example_scope ''http'') initial_state)) = attached initial_state"
proof -
  let ?mw = "quiet_middleware (Raise (Failure ''boom''))"
  let ?x = "call ?mw stub_lib stub_env (example_scope ''http'') initial_state"
  have x: "?x = (fst ?x, snd ?x)" by simp
  have h: "scope_type (example_scope ''http'') = ''http''" by (simp add: example_scope_def)
  have u: "\<not> url_excluded ?mw (example_scope ''http'')"
    by (simp add: url_excluded_def quiet_middleware_def)
  have d: "scope_decodes (example_scope ''http'')"
    by (simp add: scope_decodes_def example_scope_def)
  from cleanup_runs_and_exception_propagates [OF h u d x]
  have a: "attached (snd ?x) = attached initial_state"
    and "\<exists>a. duration_histogram (snd ?x)
                  = duration_histogram initial_state
                    @ [(elapsed_ms (timer stub_env (timer_calls initial_state))
                          (timer stub_env (timer_calls initial_state + 1)), a)]"
    by blast+
  then have m: "map fst (duration_histogram (snd ?x)) = [1000]"
    by (auto simp: stub_defs elapsed_ms_def py_round_def)
  have r: "fst ?x = Inl (Failure ''boom'')"
    by (simp add: eval_defs stub_defs)
  from h u d r m a show ?thesis by blast
qed

theorem excluded_http_request_records_no_duration:
  "scope_type (example_scope ''http'') = ''http''
   \<and> fst (call (excluding_middleware (Raise (Failure ''boom'')))
             stub_lib stub_env (example_scope ''http'') initial_state) = Inl (Failure ''boom'')
   \<and> duration_histogram
        (snd (call (excluding_middleware (Raise (Failure ''boom'')))
                stub_lib stub_env (example_scope ''http'') initial_state)) = []
   \<and> active_requests_counter
        (snd (call (excluding_middleware (Raise (Failure ''boom'')))
                stub_lib stub_env (example_scope ''http'') initial_state)) = []"
  by (simp add: call_def url_excluded_def default_timer_def stub_defs)




section \<open>Requests passed on untraced\<close>

lemma plain_run_frame:
  assumes "run_app (plain_receive ev) (plain_send ev) h s = (out, s')"
  shows "spans s' = spans s \<and> next_span s' = next_span s \<and> attached s' = attached s
    \<and> next_token s' = next_token s
    \<and> duration_histogram s' = duration_histogram s
    \<and> server_response_size_histogram s' = server_response_size_histogram s
    \<and> server_request_size_histogram s' = server_request_size_histogram s
    \<and> active_requests_counter s' = active_requests_counter s
    \<and> content_length_header s' = content_length_header s
    \<and> timer_calls s' = timer_calls s"
proof -
  let ?P = "\<lambda>x. spans x = spans s \<and> next_span x = next_span s \<and> attached x = attached s
    \<and> next_token x = next_token s
    \<and> duration_histogram x = duration_histogram s
    \<and> server_response_size_histogram x = server_response_size_histogram s
    \<and> server_request_size_histogram x = server_request_size_histogram s
    \<and> active_requests_counter x = active_requests_counter s
    \<and> content_length_header x = content_length_header s
    \<and> timer_calls x = timer_calls s"
  show "?P s'"
  proof (rule run_app_invariant [where P = ?P, OF _ _ _ assms])
    show "?P s" by simp
  next
    fix x r x'
    assume "?P x" and "plain_receive ev x = (r, x')"
    then show "?P x'" by (auto simp: plain_receive_def)
  next
    fix m x r x'
    assume "?P x" and "plain_send ev m x = (r, x')"
    then show "?P x'" by (auto simp: plain_send_def await_send_def)
  qed
qed

text \<open>
  Claim C4. For a request whose scope type is neither \<open>http\<close> nor \<open>websocket\<close>, or whose
  URL the exclusion list disables, the middleware reads the timer and calls the application
  with the server's own \<open>receive\<close> and \<open>send\<close>: the call is the run of the application
  with these, no span is created or changed, no context token is attached or detached, no
  metric instrument gets a call and the cached content length is not touched.
\<close>

theorem unsupported_or_excluded_passed_through:
  assumes "(scope_type sc \<noteq> ''http'' \<and> scope_type sc \<noteq> ''websocket'') \<or> url_excluded mw sc"
  shows "call mw l ev sc st
           = run_app (plain_receive ev) (plain_send ev) (app mw sc) (snd (default_timer ev st))
       \<and> spans (snd (call mw l ev sc st)) = spans st
       \<and> next_span (snd (call mw l ev sc st)) = next_span st
       \<and> attached (snd (call mw l ev sc st)) = attached st
       \<and> next_token (snd (call mw l ev sc st)) = next_token st
       \<and> duration_histogram (snd (call mw l ev sc st)) = duration_histogram st
       \<and> server_response_size_histogram (snd (call mw l ev sc st)) = server_response_size_histogram st
       \<and> server_request_size_histogram (snd (call mw l ev sc st)) = server_request_size_histogram st
       \<and> active_requests_counter (snd (call mw l ev sc st)) = active_requests_counter st
       \<and> content_length_header (snd (call mw l ev sc st)) = content_length_header st"
proof -
  let ?st0 = "snd (default_timer ev st)"
  let ?run = "run_app (plain_receive ev) (plain_send ev) (app mw sc) ?st0"
  from assms have c: "call mw l ev sc st = ?run"
    by (auto simp: call_def default_timer_def)
  have "?run = (fst ?run, snd ?run)" by simp
  from plain_run_frame [OF this] show ?thesis
    unfolding c by (simp add: default_timer_def)
qed

theorem unsupported_or_excluded_passed_through_witness:
  "scope_type (example_scope ''lifespan'') \<noteq> ''http''
   \<and> scope_type (example_scope ''lifespan'') \<noteq> ''websocket''
   \<and> next_span (snd (call (quiet_middleware body_then_return) stub_lib stub_env
                        (example_scope ''lifespan'') initial_state)) = 0
   \<and> duration_histogram (snd (call (quiet_middleware body_then_return) stub_lib stub_env
                        (example_scope ''lifespan'') initial_state)) = []
   \<and> sent (snd (call (quiet_middleware body_then_return) stub_lib stub_env
                        (example_scope ''lifespan'') initial_state))
       = [plain_message ''http.response.body'']
   \<and> url_excluded (excluding_middleware body_then_return)
        (example_scope ''http'')
   \<and> next_span (snd (call (excluding_middleware body_then_return)
                        stub_lib stub_env (example_scope ''http'') initial_state)) = 0
   \<and> attached (snd (call (excluding_middleware body_then_return)
                        stub_lib stub_env (example_scope ''http'') initial_state)) = []"
proof -
  let ?mw = "quiet_middleware body_then_return"
  let ?ex = "excluding_middleware body_then_return"
  have t: "scope_type (example_scope ''lifespan'') \<noteq> ''http''
           \<and> scope_type (example_scope ''lifespan'') \<noteq> ''websocket''"
    by (simp add: example_scope_def)
  have u: "url_excluded ?ex (example_scope ''http'')"
    by (simp add: url_excluded_def excluding_middleware_def quiet_middleware_def)
  from t unsupported_or_excluded_passed_through
         [of "example_scope ''lifespan''" ?mw stub_lib stub_env initial_state]
  have a: "next_span (snd (call ?mw stub_lib stub_env (example_scope ''lifespan'') initial_state))
             = next_span initial_state"
    "duration_histogram (snd (call ?mw stub_lib stub_env (example_scope ''lifespan'') initial_state))
             = duration_histogram initial_state"
    by blast+
  from u unsupported_or_excluded_passed_through
         [of "example_scope ''http''" ?ex stub_lib stub_env initial_state]
  have b: "next_span (snd (call ?ex stub_lib stub_env (example_scope ''http'') initial_state))
             = next_span initial_state"
    "attached (snd (call ?ex stub_lib stub_env (example_scope ''http'') initial_state))
             = attached initial_state"
    by blast+
  have s: "sent (snd (call ?mw stub_lib stub_env (example_scope ''lifespan'') initial_state))
       = [plain_message ''http.response.body'']"
    by (simp add: call_def default_timer_def plain_send_def plain_receive_def await_send_def stub_defs)
  from t u a b s show ?thesis by (simp add: initial_state_def)
qed

section \<open>Two requests on one middleware object\<close>

lemma stale_content_length_recorded:
  assumes h: "scope_type sc = ''http''" and ex: "\<not> url_excluded mw sc" and dec: "scope_decodes sc"
    and app: "app mw sc = Return" and c: "content_length_header st = Some n" and n: "n \<noteq> 0"
  shows "map fst (server_response_size_histogram (snd (call mw l ev sc st)))
         = map fst (server_response_size_histogram st) @ [n]"
proof -
  let ?x = "call mw l ev sc st"
  have x: "?x = (fst ?x, snd ?x)" by simp
  from h have ty: "scope_type sc = ''http'' \<or> scope_type sc = ''websocket''" by simp
  from call_traced [OF ty ex dec x] obtain rq st2 loc st3 where
    en: "request_entry mw l ev sc (snd (default_timer ev st)) = Inr (rq, st2)"
    and tr: "try_block mw l ev sc rq st2 = (fst ?x, (loc, st3))"
    and fi: "finally_block ev sc (timer ev (timer_calls st)) rq (loc, st3) = (None, snd ?x)"
    by blast
  note e1 = request_entry_effect [OF en]
  from e1 have lt: "req_span rq < next_span st2" by simp
  from try_block_effect [OF tr lt] have inv: "run_inv (req_span rq) st2 st3" .
  from app have "app mw sc = Return \<or> (\<exists>e. app mw sc = Raise e)" by simp
  from try_block_content_length [OF tr this] e1 c
  have c3: "content_length_header st3 = Some n" by (simp add: default_timer_def)
  from e1 inv have r3: "server_response_size_histogram st3 = server_response_size_histogram st"
    by (simp add: run_inv_def default_timer_def)
  from finally_block_effect [OF fi] h c3 n obtain a where
    "server_response_size_histogram (snd ?x) = server_response_size_histogram st3 @ [(n, a)]"
    by auto
  with r3 show ?thesis by simp
qed

text \<open>
  Claim C5, at two requests served one after the other by the same middleware object: the
  application of the first sends a response start with a content length of 100, the
  application of the second sends nothing. The response size recorded for the second
  request is the 100 that the first request left in \<open>content_length_header\<close>.
\<close>

theorem content_length_kept_across_requests:
  "content_length_header initial_state = None
   \<and> content_length_header
        (snd (call (quiet_middleware sends_content_length) stub_lib stub_env (example_scope ''http'')
                initial_state)) = Some 100
   \<and> map fst (server_response_size_histogram
        (snd (call (quiet_middleware sends_content_length) stub_lib stub_env (example_scope ''http'')
                initial_state))) = [100]
   \<and> app (quiet_middleware Return) (example_scope ''http'') = Return
   \<and> map fst (server_response_size_histogram
        (snd (call (quiet_middleware Return) stub_lib stub_env (example_scope ''http'')
          (snd (call (quiet_middleware sends_content_length) stub_lib stub_env (example_scope ''http'')
                  initial_state))))) = [100, 100]"
proof -
  let ?first = "call (quiet_middleware sends_content_length) stub_lib stub_env
                  (example_scope ''http'') initial_state"
  have z: "content_length_header initial_state = None" by (simp add: initial_state_def)
  have c: "content_length_header (snd ?first) = Some 100"
    by (simp add: eval_defs stub_defs)
  have m: "map fst (server_response_size_histogram (snd ?first)) = [100]"
    by (simp add: eval_defs stub_defs)
  have h: "scope_type (example_scope ''http'') = ''http''" by (simp add: example_scope_def)
  have u: "\<not> url_excluded (quiet_middleware Return) (example_scope ''http'')"
    by (simp add: url_excluded_def quiet_middleware_def)
  have d: "scope_decodes (example_scope ''http'')"
    by (simp add: scope_decodes_def example_scope_def)
  have a: "app (quiet_middleware Return) (example_scope ''http'') = Return"
    by (simp add: quiet_middleware_def)
  from stale_content_length_recorded [OF h u d a c, of stub_lib stub_env] m
  have "map fst (server_response_size_histogram
          (snd (call (quiet_middleware Return) stub_lib stub_env (example_scope ''http'')
                  (snd ?first)))) = [100, 100]"
    by simp
  with z c m a show ?thesis by blast
qed

section \<open>Requests outside the hypotheses above\<close>

text \<open>An application that sends two last body chunks makes the send wrapper call
  \<open>end()\<close> twice on the server span: the wrapper has no guard of its own.\<close>

lemma two_last_bodies_end_twice:
  "end_calls (spans (snd (call (quiet_middleware two_last_bodies) stub_lib stub_env
                            (example_scope ''http'') initial_state)) 0) = 2"
  by (simp add: eval_defs stub_defs)

text \<open>A header name that is not UTF-8 makes \<open>collect_request_attributes\<close> raise before the
  server span is started and before the \<open>try\<close> statement.\<close>

lemma undecodable_header_name_raises_at_entry:
  "call (quiet_middleware Return) stub_lib stub_env
     ((example_scope ''http'')\<lparr>scope_headers := Some [([CHR 0xFF], ''a'')]\<rparr>) initial_state
   = (Inl UnicodeDecodeError, initial_state\<lparr>timer_calls := 1\<rparr>)"
  by (simp add: eval_defs stub_defs)

text \<open>A content length of the scope that is not UTF-8 makes the \<open>finally\<close> block raise:
  the exception of the application is replaced, the context token stays attached and the
  server span is not ended.\<close>

lemma undecodable_content_length_replaces_exception:
  "fst (call (quiet_middleware (Raise (Failure ''boom''))) stub_lib stub_env
          ((example_scope ''http'')\<lparr>scope_headers := Some [(''content-length'', [CHR 0xFF])]\<rparr>)
          initial_state) = Inl UnicodeDecodeError
   \<and> attached (snd (call (quiet_middleware (Raise (Failure ''boom''))) stub_lib stub_env
          ((example_scope ''http'')\<lparr>scope_headers := Some [(''content-length'', [CHR 0xFF])]\<rparr>)
          initial_state)) = [0]
   \<and> end_calls (spans (snd (call (quiet_middleware (Raise (Failure ''boom''))) stub_lib stub_env
          ((example_scope ''http'')\<lparr>scope_headers := Some [(''content-length'', [CHR 0xFF])]\<rparr>)
          initial_state)) 0) = 0"
  by (simp add: eval_defs stub_defs)

end
